theory Spec2Isabelle
  imports Main
begin

text \<open>
  The decode-and-verify pipeline of the SMART Health Cards validation SDK: the Compact
  Token Validator (\<open>jws-compact.ts\<close>), the Image QR Decoder (\<open>image.ts\<close>) and the
  Trusted Issuer Directory. Each function is a HOL function over an explicit log; a
  function that can throw yields an outcome; the libraries, the network and the modules
  outside these three files are parameters.
\<close>

section \<open>Strings of the runtime\<close>

text \<open>
  A JavaScript string is modelled as a \<^typ>\<open>string\<close>: a list of 8-bit code units.
  \<open>trim\<close> is \<open>String.prototype.trim\<close>: it removes the white space and line
  terminators at both ends (the code units 9 to 13, 32 and 160 in this range).
\<close>

definition js_whitespace :: "char \<Rightarrow> bool" where
  "js_whitespace c =
     (c \<in> set [CHR 0x09, CHR 0x0A, CHR 0x0B, CHR 0x0C, CHR 0x0D, CHR 0x20, CHR 0xA0])"

definition trim :: "string \<Rightarrow> string" where
  "trim s = rev (dropWhile js_whitespace (rev (dropWhile js_whitespace s)))"

text \<open>\<open>s.split('.')\<close>: the pieces between the dots; never the empty list.\<close>

fun split_dot :: "string \<Rightarrow> string list" where
  "split_dot [] = [[]]"
| "split_dot (c # cs) =
     (if c = CHR ''.'' then [] # split_dot cs
      else (case split_dot cs of [] \<Rightarrow> [[c]] | p # ps \<Rightarrow> (c # p) # ps))"

text \<open>\<open>s.slice(-1)\<close>: the last code unit as a string, the empty string for \<open>""\<close>.\<close>

definition slice_last :: "string \<Rightarrow> string" where
  "slice_last s = drop (length s - 1) s"

text \<open>
  The character class \<open>[0-9a-zA-Z_-]\<close> and the test
  \<open>/[0-9a-zA-Z_-]+\.[0-9a-zA-Z_-]+\.[0-9a-zA-Z_-]+/g.test(jws)\<close> of
  \<open>jws-compact.ts\<close>, line 37. The literal is evaluated afresh at each call, so the
  search starts at index 0; the pattern has no anchors, so it is searched at every index.
  \<open>match_here\<close> matches the pattern at the start of its argument: a dot is not in the
  class, so the only way a run \<open>[...]+\<close> can be followed by a dot is to take the
  whole run.
\<close>

definition is_b64url :: "char \<Rightarrow> bool" where
  "is_b64url c =
     (c \<in> set (''0123456789'' @ ''abcdefghijklmnopqrstuvwxyz''
               @ ''ABCDEFGHIJKLMNOPQRSTUVWXYZ'' @ ''_-''))"

definition match_here :: "string \<Rightarrow> bool" where
  "match_here s =
     (case s of [] \<Rightarrow> False
      | c # _ \<Rightarrow> is_b64url c \<and>
         (case dropWhile is_b64url s of [] \<Rightarrow> False
          | d1 # r1 \<Rightarrow> d1 = CHR ''.'' \<and>
             (case r1 of [] \<Rightarrow> False
              | c1 # _ \<Rightarrow> is_b64url c1 \<and>
                 (case dropWhile is_b64url r1 of [] \<Rightarrow> False
                  | d2 # r2 \<Rightarrow> d2 = CHR ''.'' \<and>
                     (case r2 of [] \<Rightarrow> False | c2 # _ \<Rightarrow> is_b64url c2)))))"

fun regex_test :: "string \<Rightarrow> bool" where
  "regex_test [] = False"
| "regex_test (c # cs) = (match_here (c # cs) \<or> regex_test cs)"

text \<open>
  The shape in the words of the specification: the whole string is three non-empty
  base64url parts separated by two dots.
\<close>

definition b64url_part :: "string \<Rightarrow> bool" where
  "b64url_part x = (x \<noteq> [] \<and> list_all is_b64url x)"

definition segmentable :: "string \<Rightarrow> bool" where
  "segmentable s =
     (case split_dot s of
        [x, y, z] \<Rightarrow> b64url_part x \<and> b64url_part y \<and> b64url_part z
      | _ \<Rightarrow> False)"

section \<open>The log\<close>

text \<open>
  Modelled from the spec: the \<open>Log\<close> class, \<open>LogLevels\<close> and \<open>ErrorCode\<close>
  (\<open>logger.ts\<close> and \<open>error.ts\<close> are not among the sources). A log is a title, an
  ordered sequence of levelled entries, each with an optional error code, and a child log.
  Appending never raises, and \<open>fatal\<close> returns the log it appended to, as the call at
  \<open>jws-compact.ts\<close>, line 40 uses it. The error codes are those the sources name;
  \<open>OTHER_CODE\<close> stands for the rest of the enumeration.
\<close>

datatype LogLevels = DEBUG | INFO | WARNING | ERROR | FATAL

datatype ErrorCode =
    TRAILING_CHARACTERS | JWS_TOO_LONG | JSON_PARSE_ERROR | INFLATION_ERROR
  | SCHEMA_ERROR | INVALID_ISSUER_URL | ISSUER_KEY_DOWNLOAD_ERROR
  | JWS_VERIFICATION_ERROR | UNKNOWN_FILE_DATA | QR_DECODE_ERROR
  | ISSUER_NOT_TRUSTED | OTHER_CODE nat

record LogItem =
  message :: string
  code :: "ErrorCode option"
  logLevel :: LogLevels

datatype Log = Log (log_title: string) (log_entries: "LogItem list") (log_child: "Log option")

definition new_Log :: "string \<Rightarrow> Log" where
  "new_Log t = Log t [] None"

definition log_add :: "LogLevels \<Rightarrow> string \<Rightarrow> ErrorCode option \<Rightarrow> Log \<Rightarrow> Log" where
  "log_add lvl msg c L =
     Log (log_title L) (log_entries L @ [\<lparr>message = msg, code = c, logLevel = lvl\<rparr>])
       (log_child L)"

definition log_append :: "LogItem list \<Rightarrow> Log \<Rightarrow> Log" where
  "log_append es L = Log (log_title L) (log_entries L @ es) (log_child L)"

definition set_child :: "Log \<Rightarrow> Log \<Rightarrow> Log" where
  "set_child C L = Log (log_title L) (log_entries L) (Some C)"

text \<open>
  What a call yields: it returns a value, or it throws (an \<open>async\<close> function rejects).
  Either way the log holds what was appended up to that point.
\<close>

datatype exn = TypeError | Rejected

datatype 'a outcome = Returned 'a Log | Threw exn Log

fun outcome_log :: "'a outcome \<Rightarrow> Log" where
  "outcome_log (Returned _ L) = L"
| "outcome_log (Threw _ L) = L"

fun outcome_value :: "'a outcome \<Rightarrow> exn + 'a" where
  "outcome_value (Returned v _) = Inr v"
| "outcome_value (Threw e _) = Inl e"

fun map_outcome_log :: "(Log \<Rightarrow> Log) \<Rightarrow> 'a outcome \<Rightarrow> 'a outcome" where
  "map_outcome_log f (Returned v L) = Returned v (f L)"
| "map_outcome_log f (Threw e L) = Threw e (f L)"

definition prepend_entries :: "LogItem list \<Rightarrow> Log \<Rightarrow> Log" where
  "prepend_entries es L = Log (log_title L) (es @ log_entries L) (log_child L)"

definition has_code :: "ErrorCode \<Rightarrow> Log \<Rightarrow> bool" where
  "has_code c L = (\<exists>e \<in> set (log_entries L). code e = Some c)"

section \<open>The Compact Token Validator (\<open>jws-compact.ts\<close>)\<close>

text \<open>
  The payload \<open>jwsPayload.validate\<close> hands back: of its fields the validator reads
  \<open>iss\<close> only, which a parsed payload may lack (\<open>None\<close> is \<open>undefined\<close>).
\<close>

record JWSPayload =
  iss :: "string option"

text \<open>
  The collaborators of \<open>validate\<close> whose code is outside the sources (other modules,
  libraries, the network) are the fields of an environment. A collaborator that logs is
  given by the entries it appends. \<open>'ks\<close> is the key store \<open>keys.store\<close>,
  \<open>'kset\<close> a downloaded key set.
  \<^item> \<open>validateSchema\<close>: the entries \<open>validateSchema(jwsCompactSchema, jws, log)\<close> appends;
  \<^item> \<open>base64_decode\<close>: \<open>Buffer.from(s, 'base64')\<close>;
  \<open>buffer_toString\<close>: \<open>Buffer.toString()\<close>;
  \<open>binary_hex\<close>: \<open>Buffer.from(s, 'binary').toString('hex')\<close>;
  \<^item> \<open>inflateRaw\<close>: \<open>pako.inflateRaw(_, {to: 'string'})\<close>, \<open>Inl\<close> the error thrown;
  \<^item> \<open>jwsPayload_validate\<close>: the result and the log of \<open>jwsPayload.validate\<close>;
  \<^item> \<open>got_json\<close>: \<open>got(url).json()\<close>, \<open>None\<close> when the promise rejects;
  \<^item> \<open>verifyHealthCardIssuerKey\<close>: the entries it appends, the key store it leaves, and
    whether it returned (\<open>False\<close>: it threw);
  \<^item> \<open>jose_verify\<close>: \<open>verifier.verify\<close> over the key store, \<open>Some\<close> the message of
    the error thrown, \<open>None\<close> when the signature verifies.
\<close>

record ('ks, 'kset) jws_env =
  validateSchema :: "string \<Rightarrow> LogItem list"
  base64_decode :: "string \<Rightarrow> string"
  buffer_toString :: "string \<Rightarrow> string"
  binary_hex :: "string \<Rightarrow> string"
  inflateRaw :: "string \<Rightarrow> string + string"
  jwsPayload_validate :: "string \<Rightarrow> JWSPayload option \<times> Log"
  got_json :: "string \<Rightarrow> 'kset option"
  verifyHealthCardIssuerKey :: "'kset \<Rightarrow> string \<Rightarrow> 'ks \<Rightarrow> LogItem list \<times> 'ks \<times> bool"
  jose_verify :: "'ks \<Rightarrow> string \<Rightarrow> string option"

definition MAX_JWS_SINGLE_CHUNK_LENGTH :: nat where
  "MAX_JWS_SINGLE_CHUNK_LENGTH = 1195"

text \<open>\<open>downloadKey\<close>, lines 113 to 130. Its caller drops the value it returns.\<close>

definition retrieving_info :: "string \<Rightarrow> LogItem" where
  "retrieving_info jwkURL =
     \<lparr>message = ''Retrieving issuer key from '' @ jwkURL, code = None, logLevel = INFO\<rparr>"

definition download_error :: LogItem where
  "download_error =
     \<lparr>message = ''Can't parse downloaded issuer keys as a key set'',
      code = Some ISSUER_KEY_DOWNLOAD_ERROR, logLevel = ERROR\<rparr>"

definition downloadKey ::
  "('ks, 'kset) jws_env \<Rightarrow> string \<Rightarrow> Log \<Rightarrow> 'ks \<Rightarrow> Log \<times> 'ks" where
  "downloadKey env issuerURL log store =
     (let jwkURL = issuerURL @ ''/.well-known/jwks.json'';
          log1 = log_append [retrieving_info jwkURL] log
      in case got_json env jwkURL of
           None \<Rightarrow> (log_append [download_error] log1, store)
         | Some keySet \<Rightarrow>
             (let log2 = log_add DEBUG ''Downloaded issuer key(s) : '' None log1 in
              case verifyHealthCardIssuerKey env keySet issuerURL store of
                (es, store', returned) \<Rightarrow>
                  (if returned then (log_append es log2, store')
                   else (log_append [download_error] (log_append es log2), store'))))"

text \<open>\<open>verifyJws\<close>, lines 133 to 147.\<close>

definition verification_error :: "string \<Rightarrow> LogItem" where
  "verification_error msg =
     \<lparr>message = ''JWS verification failed : ('' @ msg @ '')'',
      code = Some JWS_VERIFICATION_ERROR, logLevel = ERROR\<rparr>"

definition verifyJws ::
  "('ks, 'kset) jws_env \<Rightarrow> string \<Rightarrow> Log \<Rightarrow> 'ks \<Rightarrow> bool \<times> Log" where
  "verifyJws env jws log store =
     (case jose_verify env store jws of
        None \<Rightarrow> (True, log)
      | Some msg \<Rightarrow> (False, log_append [verification_error msg] log))"

text \<open>
  \<open>validate\<close>, lines 22 to 110, in parts. \<open>or_else\<close> is \<open>a || b\<close> on a string
  that may be undefined: the empty string is falsy too.
\<close>

definition or_else :: "string option \<Rightarrow> string \<Rightarrow> string" where
  "or_else a b = (case a of None \<Rightarrow> b | Some s \<Rightarrow> if s = [] then b else s)"

text \<open>Lines 56 to 66: the inflated payload, if any, and the log.\<close>

definition inflation_error :: "string \<Rightarrow> LogItem" where
  "inflation_error err =
     \<lparr>message = ''Error inflating JWS payload. Did you use raw DEFLATE compression?''
                 @ [CHR 0x0A] @ err,
      code = Some INFLATION_ERROR, logLevel = ERROR\<rparr>"

definition inflate_payload ::
  "('ks, 'kset) jws_env \<Rightarrow> string \<Rightarrow> Log \<Rightarrow> string option \<times> Log" where
  "inflate_payload env rawPayload log =
     (case inflateRaw env (base64_decode env rawPayload) of
        Inr s \<Rightarrow> (Some s, log_add INFO ''JWS payload inflated'' None log)
      | Inl err \<Rightarrow> (None, log_append [inflation_error err] log))"

text \<open>
  The text handed to \<open>jwsPayload.validate\<close> at line 70. \<open>parts[1]\<close> of a string
  with no dot is undefined.
\<close>

definition payload_text :: "('ks, 'kset) jws_env \<Rightarrow> string \<Rightarrow> string option" where
  "payload_text env jws =
     (case split_dot jws of
        p0 # rawPayload # _ \<Rightarrow>
          Some (or_else (fst (inflate_payload env rawPayload (new_Log []))) rawPayload)
      | _ \<Rightarrow> None)"

text \<open>
  Lines 84 to 109: the issuer, the keys and the signature. \<open>!payload.iss\<close> holds for an
  absent \<open>iss\<close> and for the empty string; \<open>payload.iss.slice\<close> on an absent
  \<open>iss\<close> throws a \<open>TypeError\<close>.
\<close>

definition missing_iss_entry :: LogItem where
  "missing_iss_entry =
     \<lparr>message = ''Can't find 'iss' entry in JWS payload'', code = Some SCHEMA_ERROR,
      logLevel = ERROR\<rparr>"

definition iss_presence_log :: "string option \<Rightarrow> Log \<Rightarrow> Log" where
  "iss_presence_log i log =
     (if i = None \<or> i = Some [] then log_append [missing_iss_entry] log else log)"

definition iss_url_log :: "string \<Rightarrow> Log \<Rightarrow> Log" where
  "iss_url_log u log =
     (let log2 = (if take 8 u \<noteq> ''https://''
                  then log_add ERROR ''Issuer URL SHALL use https''
                         (Some INVALID_ISSUER_URL) log
                  else log)
      in if slice_last u = ''/''
         then log_add ERROR ''Issuer URL SHALL NOT include a trailing /''
                (Some INVALID_ISSUER_URL) log2
         else log2)"

definition validate_issuer ::
  "('ks, 'kset) jws_env \<Rightarrow> 'ks \<Rightarrow> string \<Rightarrow> JWSPayload \<Rightarrow> Log
     \<Rightarrow> (string option \<times> 'ks) outcome" where
  "validate_issuer env store jws payload log =
     (let log1 = iss_presence_log (iss payload) log in
      case iss payload of
        None \<Rightarrow> Threw TypeError log1
      | Some u \<Rightarrow>
          (case downloadKey env u (iss_url_log u log1) store of
             (log4, store') \<Rightarrow>
               (case verifyJws env jws log4 store' of
                  (verified, log5) \<Rightarrow>
                    Returned (Some jws, store')
                      (if verified then log_add INFO ''JWS signature verified'' None log5
                       else log5))))"

text \<open>Lines 56 to 81, and on to the issuer: the inflation and the Payload Validator.\<close>

definition validate_payload ::
  "('ks, 'kset) jws_env \<Rightarrow> 'ks \<Rightarrow> string \<Rightarrow> string \<Rightarrow> Log
     \<Rightarrow> (string option \<times> 'ks) outcome" where
  "validate_payload env store jws rawPayload log =
     (case inflate_payload env rawPayload log of
        (inflatedPayload, log4) \<Rightarrow>
          (case jwsPayload_validate env (or_else inflatedPayload rawPayload) of
             (payload, payloadLog) \<Rightarrow>
               (let log5 = set_child payloadLog log4 in
                case payload of
                  None \<Rightarrow> Returned (None, store) log5
                | Some p \<Rightarrow> validate_issuer env store jws p log5)))"

text \<open>
  Lines 45 to 54: the schema, the split and the two debug entries. \<open>parts[0]\<close> is
  always there; when \<open>parts[2]\<close> is not, the second entry is never made:
  \<open>Buffer.from(undefined, 'binary')\<close> throws a \<open>TypeError\<close>.
\<close>

definition header_debug :: "('ks, 'kset) jws_env \<Rightarrow> string \<Rightarrow> LogItem" where
  "header_debug env p0 =
     \<lparr>message = ''JWS.header = '' @ buffer_toString env (base64_decode env p0),
      code = None, logLevel = DEBUG\<rparr>"

definition key_debug :: "('ks, 'kset) jws_env \<Rightarrow> string \<Rightarrow> LogItem" where
  "key_debug env p2 =
     \<lparr>message = ''JWS.key (hex) = '' @ binary_hex env p2, code = None, logLevel = DEBUG\<rparr>"

definition parts_debug :: "('ks, 'kset) jws_env \<Rightarrow> string \<Rightarrow> string \<Rightarrow> LogItem list" where
  "parts_debug env p0 p2 = [header_debug env p0, key_debug env p2]"

definition validate_parts ::
  "('ks, 'kset) jws_env \<Rightarrow> 'ks \<Rightarrow> string \<Rightarrow> Log \<Rightarrow> (string option \<times> 'ks) outcome" where
  "validate_parts env store jws log =
     (let log1 = log_append (validateSchema env jws) log in
      case split_dot jws of
        p0 # rawPayload # p2 # _ \<Rightarrow>
          validate_payload env store jws rawPayload (log_append (parts_debug env p0 p2) log1)
      | p0 # _ \<Rightarrow> Threw TypeError (log_append [header_debug env p0] log1)
      | [] \<Rightarrow> Threw TypeError log1)"

text \<open>Lines 26 to 35: the log after the trimming and the length check.\<close>

definition trailing_warning :: LogItem where
  "trailing_warning =
     \<lparr>message = ''JWS has leading or trailing spaces'',
      code = Some TRAILING_CHARACTERS, logLevel = WARNING\<rparr>"

definition length_warning :: LogItem where
  "length_warning =
     \<lparr>message = ''JWS is longer than 1195 characters, and will result in split QR codes'',
      code = Some JWS_TOO_LONG, logLevel = WARNING\<rparr>"

definition parse_fatal :: LogItem where
  "parse_fatal =
     \<lparr>message = ''Failed to parse JWS-compact data as 'base64url.base64url.base64url' string.'',
      code = Some JSON_PARSE_ERROR, logLevel = FATAL\<rparr>"

definition validate ::
  "('ks, 'kset) jws_env \<Rightarrow> 'ks \<Rightarrow> string \<Rightarrow> (string option \<times> 'ks) outcome" where
  "validate env store jws0 =
     (let log = new_Log ''JWS-compact'';
          log1 = (if trim jws0 \<noteq> jws0 then log_append [trailing_warning] log else log);
          jws = (if trim jws0 \<noteq> jws0 then trim jws0 else jws0);
          log2 = (if length jws > MAX_JWS_SINGLE_CHUNK_LENGTH
                  then log_append [length_warning] log1 else log1)
      in if \<not> regex_test jws then Returned (None, store) (log_append [parse_fatal] log2)
         else validate_parts env store jws log2)"

section \<open>The Image QR Decoder (\<open>image.ts\<close>)\<close>

text \<open>
  \<open>FileInfo\<close>: the fields \<open>image.ts\<close> reads. \<open>image_data\<close> is the field
  \<open>image\<close>, the decoded pixels, which may be undefined.
\<close>

record 'img FileInfo =
  name :: string
  path :: string
  fileType :: string
  buffer :: string
  image_data :: "'img option"

text \<open>
  The libraries and the module \<open>qr\<close>, as an environment:
  \<^item> \<open>svg2img\<close>: what the callback of \<open>svg2img\<close> receives, \<open>Inl\<close> the message of the
    error, \<open>Inr\<close> the image buffer;
  \<^item> \<open>png_read\<close>: \<open>PNG.sync.read\<close>;
  \<^item> \<open>jsQR\<close>: the text of the code found in the pixels, \<open>None\<close> for \<open>null\<close>;
  \<^item> \<open>qr_validate\<close>: the result and the log of \<open>qr.validate\<close>;
  \<^item> \<open>buffer_string\<close>: \<open>Buffer.toString()\<close>.
  \<open>fs.writeFileSync\<close> at line 52 writes a file that \<open>validate\<close> never reads back; the
  write is left out of the model.
\<close>

record 'img image_env =
  svg2img :: "string \<Rightarrow> string + string"
  png_read :: "string \<Rightarrow> 'img"
  jsQR :: "'img \<Rightarrow> string option"
  qr_validate :: "string list \<Rightarrow> string option \<times> Log"
  buffer_string :: "string \<Rightarrow> string"

text \<open>
  \<open>svgToImageBuffer\<close>, lines 74 to 87: on an error the callback logs and rejects with
  \<open>undefined\<close>; the \<open>resolve\<close> that follows a \<open>reject\<close> has no effect.
\<close>

definition conversion_fatal :: "string \<Rightarrow> LogItem" where
  "conversion_fatal err =
     \<lparr>message = ''Could not convert SVG to image. Error: '' @ err, code = None,
      logLevel = FATAL\<rparr>"

definition svgToImageBuffer :: "'img image_env \<Rightarrow> string \<Rightarrow> Log \<Rightarrow> string outcome" where
  "svgToImageBuffer env svgPath log =
     (case svg2img env svgPath of
        Inl err \<Rightarrow> Threw Rejected (log_append [conversion_fatal err] log)
      | Inr buf \<Rightarrow> Returned buf log)"

text \<open>\<open>decodeQrBuffer\<close>, lines 91 to 112.\<close>

definition decodeQrBuffer ::
  "'img image_env \<Rightarrow> 'img FileInfo \<Rightarrow> Log \<Rightarrow> string option \<times> Log" where
  "decodeQrBuffer env fileInfo log =
     (case image_data fileInfo of
        None \<Rightarrow>
          (None, log_add FATAL (''Could not read image data from : '' @ name fileInfo) None log)
      | Some data \<Rightarrow>
          (case jsQR env data of
             None \<Rightarrow>
               (None, log_add FATAL (''Could not decode QR image from : '' @ name fileInfo)
                        (Some QR_DECODE_ERROR) log)
           | Some code_data \<Rightarrow> (Some code_data, log)))"

text \<open>
  \<open>decode\<close>, lines 43 to 65. The \<open>svg\<close> case falls through to the raster case with
  the image it has read; \<open>decode\<close> has no handler, so a rejection of
  \<open>svgToImageBuffer\<close> is its own.
\<close>

definition decode ::
  "'img image_env \<Rightarrow> 'img FileInfo \<Rightarrow> Log \<Rightarrow> string option outcome" where
  "decode env fileInfo log =
     (if fileType fileInfo = ''svg'' then
        (case svgToImageBuffer env (buffer_string env (buffer fileInfo)) log of
           Threw e L \<Rightarrow> Threw e L
         | Returned svgBuffer L \<Rightarrow>
             (case decodeQrBuffer env
                     (fileInfo\<lparr>image_data := Some (png_read env svgBuffer)\<rparr>) L of
                (shc, L') \<Rightarrow> Returned shc L'))
      else if fileType fileInfo \<in> set [''png'', ''jpg'', ''bmp''] then
        (case decodeQrBuffer env fileInfo log of (shc, L') \<Rightarrow> Returned shc L')
      else Returned None (log_add FATAL ''Unknown data in file'' (Some UNKNOWN_FILE_DATA) log))"

text \<open>\<open>Number.prototype.toString()\<close> of a length: its decimal digits.\<close>

definition digit_char :: "nat \<Rightarrow> char" where
  "digit_char d = char_of (of_char (CHR ''0'') + d)"

function string_of_nat :: "nat \<Rightarrow> string" where
  "string_of_nat n =
     (if n < 10 then [digit_char n] else string_of_nat (n div 10) @ [digit_char (n mod 10)])"
  by pat_completeness auto
termination
  by (relation "measure id") auto

declare string_of_nat.simps [simp del]

text \<open>
  \<open>JSON.stringify\<close> of an array of strings: each string in double quotes, with the
  quote, the backslash and the control characters escaped, separated by commas, in
  brackets.
\<close>

definition hex_digit :: "nat \<Rightarrow> char" where
  "hex_digit d = (''0123456789abcdef'' ! (d mod 16))"

definition json_escape :: "char \<Rightarrow> string" where
  "json_escape c =
     (if c = CHR 0x22 then [CHR 0x5C, CHR 0x22]
      else if c = CHR 0x5C then [CHR 0x5C, CHR 0x5C]
      else if c = CHR 0x08 then [CHR 0x5C, CHR ''b'']
      else if c = CHR 0x0C then [CHR 0x5C, CHR ''f'']
      else if c = CHR 0x0A then [CHR 0x5C, CHR ''n'']
      else if c = CHR 0x0D then [CHR 0x5C, CHR ''r'']
      else if c = CHR 0x09 then [CHR 0x5C, CHR ''t'']
      else if (of_char c :: nat) < 32
        then [CHR 0x5C, CHR ''u'', CHR ''0'', CHR ''0'',
              hex_digit (of_char c div 16), hex_digit (of_char c)]
      else [c])"

definition json_quote :: "string \<Rightarrow> string" where
  "json_quote s = [CHR 0x22] @ concat (map json_escape s) @ [CHR 0x22]"

fun join_comma :: "string list \<Rightarrow> string" where
  "join_comma [] = []"
| "join_comma [x] = x"
| "join_comma (x # y # ys) = x @ '','' @ join_comma (y # ys)"

definition json_stringify :: "string list \<Rightarrow> string" where
  "json_stringify xs = ''['' @ join_comma (map json_quote xs) @ '']''"

text \<open>The loop of lines 26 to 32, from image \<open>i\<close> on, with \<open>shcStrings\<close> so far.\<close>

fun decode_loop ::
  "'img image_env \<Rightarrow> 'img FileInfo list \<Rightarrow> string list \<Rightarrow> Log \<Rightarrow> string list option outcome"
  where
  "decode_loop env [] shcStrings log = Returned (Some shcStrings) log"
| "decode_loop env (img # rest) shcStrings log =
     (case decode env img log of
        Threw e L \<Rightarrow> Threw e L
      | Returned None L \<Rightarrow> Returned None L
      | Returned (Some shc) L \<Rightarrow>
          decode_loop env rest (shcStrings @ [shc])
            (log_add DEBUG (name img @ '' = '' @ shc) None
               (log_add INFO (name img @ '' decoded'') None L)))"

text \<open>\<open>validate\<close> of \<open>image.ts\<close>, lines 16 to 39.\<close>

definition batch_title :: "nat \<Rightarrow> string" where
  "batch_title n =
     (if n > 1 then ''QR images ('' @ string_of_nat n @ '')'' else ''QR image'')"

definition image_validate ::
  "'img image_env \<Rightarrow> 'img FileInfo list \<Rightarrow> string option outcome" where
  "image_validate env images =
     (let log = new_Log (batch_title (length images))
      in case decode_loop env images [] log of
           Threw e L \<Rightarrow> Threw e L
         | Returned None L \<Rightarrow> Returned None L
         | Returned (Some shcStrings) L \<Rightarrow>
             Returned (Some (json_stringify shcStrings))
               (set_child (snd (qr_validate env shcStrings)) L))"

section \<open>The Trusted Issuer Directory\<close>

record TrustedIssuer =
  issuer_iss :: string
  issuer_name :: string

record TrustedIssuers =
  participating_issuers :: "TrustedIssuer list"

text \<open>
  The static fields of the class \<open>TrustedIssuerDirectory\<close>; a field never assigned is
  undefined, and a template literal prints \<open>undefined\<close> for it.
  \<open>TrustedIssuerDirectory.name\<close>, which the message of line 142 prints, is the name of
  the class.
\<close>

record TrustedIssuerDirectory =
  directoryURL :: "string option"
  directoryName :: "string option"
  issuers :: "TrustedIssuers option"

definition template_string :: "string option \<Rightarrow> string" where
  "template_string v = (case v of None \<Rightarrow> ''undefined'' | Some s \<Rightarrow> s)"

text \<open>
  \<open>checkTrustedIssuerDirectory\<close>, lines 137 to 150. \<open>issName\<close> is the first name of
  the filtered list, undefined when the list is empty; \<open>if (issName)\<close> is false for
  undefined and for the empty string.
\<close>

definition checkTrustedIssuerDirectory ::
  "TrustedIssuerDirectory \<Rightarrow> string \<Rightarrow> Log \<Rightarrow> Log" where
  "checkTrustedIssuerDirectory dir iss_url log =
     (case issuers dir of
        Some trusted \<Rightarrow>
          (let issName =
                 (case map issuer_name
                         (filter (\<lambda>issuer. issuer_iss issuer = iss_url)
                            (participating_issuers trusted)) of
                    [] \<Rightarrow> None
                  | n # _ \<Rightarrow> Some n)
           in case issName of
                Some n \<Rightarrow>
                  (if n \<noteq> []
                   then log_add DEBUG
                          (''Issuer found in TrustedIssuerDirectory directory; name: '' @ n)
                          None log
                   else log_add ERROR
                          (''Issuer not part of the '' @ template_string (directoryName dir)
                             @ '' directory'')
                          (Some ISSUER_NOT_TRUSTED) log)
              | None \<Rightarrow>
                  log_add ERROR
                    (''Issuer not part of the '' @ template_string (directoryName dir)
                       @ '' directory'')
                    (Some ISSUER_NOT_TRUSTED) log)
      | None \<Rightarrow>
          log_add ERROR
            ''Error validating against the trusted issuers directory: directory not set''
            None log)"

section \<open>Observations and test doubles\<close>

text \<open>
  A log \<open>extends_by\<close> entries of a kind when it holds the entries of the other and,
  after them, entries of that kind only.
  The entries \<open>validate\<close> has logged when it reaches the shape test. An entry is
  \<open>plain\<close> when it is neither fatal nor about trailing characters. The collaborators
  that append to the log of \<open>validate\<close> are \<open>silent_on\<close> a code when no entry of
  theirs carries it.
\<close>

definition extends_by :: "(LogItem \<Rightarrow> bool) \<Rightarrow> Log \<Rightarrow> Log \<Rightarrow> bool" where
  "extends_by Q L L' = (\<exists>es. log_entries L' = log_entries L @ es \<and> list_all Q es)"

definition prelude_entries :: "string \<Rightarrow> LogItem list" where
  "prelude_entries jws0 =
     (if trim jws0 \<noteq> jws0 then [trailing_warning] else [])
     @ (if length (trim jws0) > MAX_JWS_SINGLE_CHUNK_LENGTH then [length_warning] else [])"

definition plain :: "LogItem \<Rightarrow> bool" where
  "plain e = (code e \<noteq> Some TRAILING_CHARACTERS \<and> logLevel e \<noteq> FATAL)"

definition key_entry :: "('ks, 'kset) jws_env \<Rightarrow> LogItem \<Rightarrow> bool" where
  "key_entry env e =
     (\<exists>keySet url store. e \<in> set (fst (verifyHealthCardIssuerKey env keySet url store)))"

definition silent_on :: "ErrorCode \<Rightarrow> ('ks, 'kset) jws_env \<Rightarrow> bool" where
  "silent_on c env =
     ((\<forall>jws. \<forall>e \<in> set (validateSchema env jws). code e \<noteq> Some c)
      \<and> (\<forall>e. key_entry env e \<longrightarrow> code e \<noteq> Some c))"

text \<open>
  What \<open>decode\<close> yields for an image, whatever the log it is given, and the text it
  decodes to. \<open>qr_not_found\<close>: \<open>decode\<close> reached \<open>jsQR\<close> on the pixels of the image
  and \<open>jsQR\<close> found no code.
\<close>

definition decode_value :: "'img image_env \<Rightarrow> 'img FileInfo \<Rightarrow> exn + string option" where
  "decode_value env img = outcome_value (decode env img (new_Log []))"

definition decoded_text :: "'img image_env \<Rightarrow> 'img FileInfo \<Rightarrow> string" where
  "decoded_text env img =
     (case decode_value env img of Inr (Some shc) \<Rightarrow> shc | _ \<Rightarrow> [])"

definition decodes :: "'img image_env \<Rightarrow> 'img FileInfo \<Rightarrow> bool" where
  "decodes env img = (case decode_value env img of Inr (Some shc) \<Rightarrow> True | _ \<Rightarrow> False)"

definition qr_not_found :: "'img image_env \<Rightarrow> 'img FileInfo \<Rightarrow> bool" where
  "qr_not_found env img =
     (if fileType img = ''svg'' then
        (case svg2img env (buffer_string env (buffer img)) of
           Inl err \<Rightarrow> False
         | Inr buf \<Rightarrow> jsQR env (png_read env buf) = None)
      else fileType img \<in> set [''png'', ''jpg'', ''bmp''] \<and>
           (case image_data img of None \<Rightarrow> False | Some data \<Rightarrow> jsQR env data = None))"

definition image_log_entries :: "'img image_env \<Rightarrow> 'img FileInfo \<Rightarrow> LogItem list" where
  "image_log_entries env img =
     [\<lparr>message = name img @ '' decoded'', code = None, logLevel = INFO\<rparr>,
      \<lparr>message = name img @ '' = '' @ decoded_text env img, code = None, logLevel = DEBUG\<rparr>]"

text \<open>
  What the caller of an \<open>async\<close> function receives. The log is a local of the
  function: it reaches the caller in the object the function returns, and a rejection
  carries the exception alone.
\<close>

fun delivered :: "'a outcome \<Rightarrow> exn + ('a \<times> Log)" where
  "delivered (Returned v L) = Inr (v, L)"
| "delivered (Threw e L) = Inl e"

text \<open>A text that \<open>JSON.stringify\<close> quotes without escaping any of its characters.\<close>

definition json_plain :: "string \<Rightarrow> bool" where
  "json_plain s =
     list_all (\<lambda>c. 32 \<le> (of_char c :: nat) \<and> c \<noteq> CHR 0x22 \<and> c \<noteq> CHR 0x5C) s"

text \<open>
  A base64 decoder for the test environment: the standard and the URL-safe alphabet, other
  characters skipped, no padding needed.
\<close>

definition b64_value :: "char \<Rightarrow> nat option" where
  "b64_value c =
     (let n = (of_char c :: nat) in
      if 65 \<le> n \<and> n \<le> 90 then Some (n - 65)
      else if 97 \<le> n \<and> n \<le> 122 then Some (n - 71)
      else if 48 \<le> n \<and> n \<le> 57 then Some (n + 4)
      else if c = CHR ''+'' \<or> c = CHR ''-'' then Some 62
      else if c = CHR ''/'' \<or> c = CHR ''_'' then Some 63
      else None)"

fun b64_bytes :: "nat list \<Rightarrow> string" where
  "b64_bytes (a # b # c # d # r) =
     [char_of (a * 4 + b div 16), char_of ((b mod 16) * 16 + c div 4),
      char_of ((c mod 4) * 64 + d)] @ b64_bytes r"
| "b64_bytes [a, b, c] = [char_of (a * 4 + b div 16), char_of ((b mod 16) * 16 + c div 4)]"
| "b64_bytes [a, b] = [char_of (a * 4 + b div 16)]"
| "b64_bytes _ = []"

definition b64_decode :: "string \<Rightarrow> string" where
  "b64_decode s = b64_bytes (List.map_filter b64_value s)"

definition hex_string :: "string \<Rightarrow> string" where
  "hex_string s = concat (map (\<lambda>c. [hex_digit (of_char c div 16), hex_digit (of_char c)]) s)"

text \<open>
  A test environment for the Compact Token Validator. The key store is a list of key
  identifiers. The inflater knows two compressed payloads, the bytes \<open>x\<close> and \<open>y\<close>
  (\<open>eA\<close> and \<open>eQ\<close> in base64url), and fails on every other input; the Payload Validator
  parses the first to a payload with an issuer, the second to a payload with none, fails
  on any other text, and logs the text it was given. The key endpoint is unreachable.
\<close>

definition ex_payload_validate :: "string \<Rightarrow> JWSPayload option \<times> Log" where
  "ex_payload_validate t =
     (if t = ''ISS'' then
        (Some \<lparr>iss = Some ''https://example.org/issuer''\<rparr>,
         Log ''JWS.payload'' [\<lparr>message = t, code = None, logLevel = DEBUG\<rparr>] None)
      else if t = ''NOISS'' then
        (Some \<lparr>iss = None\<rparr>,
         Log ''JWS.payload''
           [\<lparr>message = t, code = None, logLevel = DEBUG\<rparr>,
            \<lparr>message = ''JWS.payload fails schema'', code = Some SCHEMA_ERROR,
             logLevel = ERROR\<rparr>] None)
      else
        (None,
         Log ''JWS.payload''
           [\<lparr>message = t, code = None, logLevel = DEBUG\<rparr>,
            \<lparr>message = ''Failed to parse JWS.payload data as JSON.'',
             code = Some JSON_PARSE_ERROR, logLevel = FATAL\<rparr>] None))"

definition ex_env :: "(string list, string list) jws_env" where
  "ex_env =
     \<lparr>validateSchema = (\<lambda>jws. if segmentable jws then []
          else [\<lparr>message = ''JWS schema: does not match pattern'', code = Some SCHEMA_ERROR,
                 logLevel = ERROR\<rparr>]),
      base64_decode = b64_decode,
      buffer_toString = (\<lambda>b. b),
      binary_hex = hex_string,
      inflateRaw = (\<lambda>b. if b = ''x'' then Inr ''ISS''
                         else if b = ''y'' then Inr ''NOISS''
                         else Inl ''invalid stored block lengths''),
      jwsPayload_validate = ex_payload_validate,
      got_json = (\<lambda>url. None),
      verifyHealthCardIssuerKey = (\<lambda>keySet url store. ([], store @ keySet, True)),
      jose_verify = (\<lambda>store jws. if store = [] then Some ''no key found'' else None)\<rparr>"

text \<open>
  A test environment for the Image QR Decoder: an image is the text its QR code holds, the
  empty text for an image with no readable code; the SVG \<open>bad\<close> does not convert.
\<close>

definition ex_image_env :: "string image_env" where
  "ex_image_env =
     \<lparr>svg2img = (\<lambda>svg. if svg = ''bad'' then Inl ''unexpected end of input'' else Inr svg),
      png_read = (\<lambda>b. b),
      jsQR = (\<lambda>img. if img = [] then None else Some img),
      qr_validate = (\<lambda>shcs. (None, Log ''QR numeric'' [] None)),
      buffer_string = (\<lambda>b. b)\<rparr>"

definition ex_file :: "string \<Rightarrow> string \<Rightarrow> string option \<Rightarrow> string FileInfo" where
  "ex_file n t img =
     \<lparr>name = n, path = n, fileType = t, buffer = (case img of None \<Rightarrow> [] | Some i \<Rightarrow> i),
      image_data = img\<rparr>"

text \<open>A directory whose one participant has an empty friendly name.\<close>

definition ex_issuers :: TrustedIssuers where
  "ex_issuers =
     \<lparr>participating_issuers = [\<lparr>issuer_iss = ''https://a.example'', issuer_name = []\<rparr>]\<rparr>"

definition ex_directory :: TrustedIssuerDirectory where
  "ex_directory =
     \<lparr>directoryURL = Some ''https://directory.example/issuers.json'',
      directoryName = Some ''test'',
      issuers = Some ex_issuers\<rparr>"

section \<open>Strings: trimming, splitting and the shape test\<close>

lemma split_dot_nonempty: "split_dot s \<noteq> []"
  by (induction s) (auto split: list.splits)

lemma dropWhile_trimmed: "dropWhile P (rev (dropWhile P (rev (dropWhile P s)))) = rev (dropWhile P (rev (dropWhile P s)))"
proof (cases "dropWhile P (rev (dropWhile P s)) = []")
  case True
  then have "rev (dropWhile P (rev (dropWhile P s))) = []" by simp
  then show ?thesis by (simp only: dropWhile.simps)
next
  case False
  define a where "a = dropWhile P s"
  define b where "b = dropWhile P (rev a)"
  have bne: "b \<noteq> []" using False by (simp add: a_def b_def)
  have "rev a = takeWhile P (rev a) @ b" by (simp add: b_def)
  then have a: "a = rev b @ rev (takeWhile P (rev a))"
    by (metis rev_append rev_rev_ident)
  have "a \<noteq> []" using bne b_def by auto
  then have "\<not> P (hd a)" unfolding a_def by (simp add: hd_dropWhile)
  moreover have "hd a = hd (rev b)" using a bne by (metis hd_append2 rev_is_Nil_conv)
  ultimately have "\<not> P (hd (rev b))" by simp
  then have "dropWhile P (rev b) = rev b" using bne by (cases "rev b") auto
  then show ?thesis by (simp add: a_def b_def)
qed

lemma trim_idem: "trim (trim s) = trim s"
  by (simp add: trim_def dropWhile_trimmed dropWhile_idem)

lemma length_split_dot: "length (split_dot s) = Suc (length (filter (\<lambda>c. c = CHR ''.'') s))"
  by (induction s) (auto split: list.splits)

lemma not_b64url_dot: "\<not> is_b64url (CHR ''.'')"
  by (simp add: is_b64url_def)

lemma match_here_dots: "match_here s \<Longrightarrow> 2 \<le> length (filter (\<lambda>c. c = CHR ''.'') s)"
proof -
  assume m: "match_here s"
  then obtain r1 where r1: "dropWhile is_b64url s = CHR ''.'' # r1"
    by (auto simp: match_here_def split: list.splits)
  with m obtain r2 where r2: "dropWhile is_b64url r1 = CHR ''.'' # r2"
    by (auto simp: match_here_def split: list.splits)
  have "s = takeWhile is_b64url s @ CHR ''.'' # takeWhile is_b64url r1 @ CHR ''.'' # r2"
    by (metis r1 r2 takeWhile_dropWhile_id)
  then have "filter (\<lambda>c. c = CHR ''.'') s = filter (\<lambda>c. c = CHR ''.'') (takeWhile is_b64url s @ CHR ''.'' # takeWhile is_b64url r1 @ CHR ''.'' # r2)"
    by simp
  then show ?thesis by simp
qed

lemma regex_test_dots: "regex_test s \<Longrightarrow> 2 \<le> length (filter (\<lambda>c. c = CHR ''.'') s)"
proof (induction s)
  case Nil
  then show ?case by simp
next
  case (Cons c cs)
  show ?case
  proof (cases "match_here (c # cs)")
    case True
    then show ?thesis by (rule match_here_dots)
  next
    case False
    with Cons have "2 \<le> length (filter (\<lambda>c. c = CHR ''.'') cs)" by simp
    then show ?thesis by simp
  qed
qed

lemma regex_test_parts:
  assumes "regex_test s"
  shows "\<exists>p0 p1 p2 rest. split_dot s = p0 # p1 # p2 # rest"
proof -
  have "3 \<le> length (split_dot s)"
    using regex_test_dots [OF assms] by (simp add: length_split_dot)
  then obtain p0 t0 where t0: "split_dot s = p0 # t0" "2 \<le> length t0"
    by (cases "split_dot s") auto
  then obtain p1 t1 where t1: "t0 = p1 # t1" "1 \<le> length t1"
    by (cases t0) auto
  then obtain p2 t2 where t2: "t1 = p2 # t2"
    by (cases t1) auto
  show ?thesis using t0 t1 t2 by simp
qed

section \<open>The log under its operations\<close>

lemma log_add_sel [simp]:
  "log_title (log_add l m c L) = log_title L"
  "log_child (log_add l m c L) = log_child L"
  "log_entries (log_add l m c L) = log_entries L @ [\<lparr>message = m, code = c, logLevel = l\<rparr>]"
  by (simp_all add: log_add_def)

lemma log_append_sel [simp]:
  "log_title (log_append es L) = log_title L"
  "log_child (log_append es L) = log_child L"
  "log_entries (log_append es L) = log_entries L @ es"
  by (simp_all add: log_append_def)

lemma set_child_sel [simp]:
  "log_title (set_child C L) = log_title L"
  "log_child (set_child C L) = Some C"
  "log_entries (set_child C L) = log_entries L"
  by (simp_all add: set_child_def)

lemma prepend_entries_sel [simp]:
  "log_title (prepend_entries es L) = log_title L"
  "log_child (prepend_entries es L) = log_child L"
  "log_entries (prepend_entries es L) = es @ log_entries L"
  by (simp_all add: prepend_entries_def)

lemma new_Log_sel [simp]:
  "log_title (new_Log t) = t"
  "log_child (new_Log t) = None"
  "log_entries (new_Log t) = []"
  by (simp_all add: new_Log_def)

lemma prepend_log_add: "log_add l m c (prepend_entries es L) = prepend_entries es (log_add l m c L)"
  by (simp add: Log.expand)

lemma prepend_log_append: "log_append xs (prepend_entries es L) = prepend_entries es (log_append xs L)"
  by (simp add: Log.expand)

lemma prepend_set_child: "set_child C (prepend_entries es L) = prepend_entries es (set_child C L)"
  by (simp add: Log.expand)

lemmas prepend_commute = prepend_log_add prepend_log_append prepend_set_child

section \<open>The stages of the Compact Token Validator\<close>

lemma downloadKey_prepend:
  "downloadKey env u (prepend_entries es L) st =
     (prepend_entries es (fst (downloadKey env u L st)), snd (downloadKey env u L st))"
  by (simp add: downloadKey_def Let_def prepend_commute split: option.splits prod.splits)

lemma verifyJws_prepend:
  "verifyJws env j (prepend_entries es L) st =
     (fst (verifyJws env j L st), prepend_entries es (snd (verifyJws env j L st)))"
  by (simp add: verifyJws_def prepend_commute split: option.splits)

lemma inflate_payload_prepend:
  "inflate_payload env raw (prepend_entries es L) =
     (fst (inflate_payload env raw L), prepend_entries es (snd (inflate_payload env raw L)))"
  by (simp add: inflate_payload_def prepend_commute split: sum.splits)

lemma fst_inflate_payload: "fst (inflate_payload env raw L) = fst (inflate_payload env raw L')"
  by (simp add: inflate_payload_def split: sum.splits)

lemma iss_presence_log_prepend:
  "iss_presence_log i (prepend_entries es L) = prepend_entries es (iss_presence_log i L)"
  by (simp add: iss_presence_log_def prepend_commute)

lemma iss_url_log_prepend:
  "iss_url_log u (prepend_entries es L) = prepend_entries es (iss_url_log u L)"
  by (simp add: iss_url_log_def Let_def prepend_commute)

lemma validate_issuer_prepend:
  "validate_issuer env st j p (prepend_entries es L) =
     map_outcome_log (prepend_entries es) (validate_issuer env st j p L)"
proof (cases "iss p")
  case None
  then show ?thesis by (simp add: validate_issuer_def iss_presence_log_prepend)
next
  case (Some u)
  then show ?thesis
    by (simp add: validate_issuer_def iss_presence_log_prepend iss_url_log_prepend
          downloadKey_prepend verifyJws_prepend prepend_commute split: prod.splits)
qed

lemma validate_payload_prepend:
  "validate_payload env st j raw (prepend_entries es L) =
     map_outcome_log (prepend_entries es) (validate_payload env st j raw L)"
  by (simp add: validate_payload_def inflate_payload_prepend case_prod_beta Let_def
        prepend_commute validate_issuer_prepend split: option.splits)

lemma validate_parts_split:
  assumes "split_dot j = p0 # p1 # p2 # rest"
  shows "validate_parts env st j L =
     validate_payload env st j p1
       (log_append (parts_debug env p0 p2) (log_append (validateSchema env j) L))"
  using assms by (simp add: validate_parts_def Let_def)

lemma validate_parts_prepend:
  assumes "regex_test j"
  shows "validate_parts env st j (prepend_entries es L) =
     map_outcome_log (prepend_entries es) (validate_parts env st j L)"
proof -
  from regex_test_parts [OF assms] obtain p0 p1 p2 rest
    where sp: "split_dot j = p0 # p1 # p2 # rest" by blast
  show ?thesis
    by (simp add: validate_parts_split [OF sp] prepend_commute validate_payload_prepend)
qed

lemma payload_text_split:
  assumes "split_dot j = p0 # p1 # p2 # rest"
  shows "payload_text env j = Some (or_else (fst (inflate_payload env p1 L)) p1)"
  using assms fst_inflate_payload [of env p1 L "new_Log []"] by (simp add: payload_text_def)

lemma Log_collapse: "Log (log_title L) (log_entries L) (log_child L) = L"
  by (cases L) simp

lemma validate_unfold:
  "validate env st jws =
     (if \<not> regex_test (trim jws)
      then Returned (None, st) (Log ''JWS-compact'' (prelude_entries jws @ [parse_fatal]) None)
      else validate_parts env st (trim jws) (Log ''JWS-compact'' (prelude_entries jws) None))"
  by (simp add: validate_def Let_def prelude_entries_def log_append_def new_Log_def)

lemma prelude_entries_trim:
  "prelude_entries jws =
     (if jws \<noteq> trim jws then [trailing_warning] else []) @ prelude_entries (trim jws)"
  by (auto simp: prelude_entries_def trim_idem)

lemma validate_trim:
  "validate env st jws =
     (if jws \<noteq> trim jws
      then map_outcome_log (prepend_entries [trailing_warning]) (validate env st (trim jws))
      else validate env st (trim jws))"
proof (cases "jws = trim jws")
  case True
  then show ?thesis by simp
next
  case False
  have pre: "prelude_entries jws = trailing_warning # prelude_entries (trim jws)"
    using False prelude_entries_trim [of jws] by simp
  have L: "Log ''JWS-compact'' (trailing_warning # es) None =
        prepend_entries [trailing_warning] (Log ''JWS-compact'' es None)" for es
    by (simp add: prepend_entries_def)
  show ?thesis
  proof (cases "regex_test (trim jws)")
    case True
    then show ?thesis
      using False
      by (simp add: validate_unfold [of env st jws] validate_unfold [of env st "trim jws"]
            trim_idem pre L validate_parts_prepend)
  next
    case nr: False
    then show ?thesis
      using False
      by (simp add: validate_unfold [of env st jws] validate_unfold [of env st "trim jws"]
            trim_idem pre prepend_entries_def)
  qed
qed

lemma outcome_value_map [simp]: "outcome_value (map_outcome_log f r) = outcome_value r"
  by (cases r) simp_all

lemma outcome_log_map [simp]: "outcome_log (map_outcome_log f r) = f (outcome_log r)"
  by (cases r) simp_all

lemma extends_by_refl: "extends_by Q L L"
  by (simp add: extends_by_def)

lemma extends_by_trans: "extends_by Q L L' \<Longrightarrow> extends_by Q L' L'' \<Longrightarrow> extends_by Q L L''"
  by (auto simp: extends_by_def)

lemma extends_by_mono: "extends_by Q L L' \<Longrightarrow> (\<And>e. Q e \<Longrightarrow> R e) \<Longrightarrow> extends_by R L L'"
  by (auto simp: extends_by_def list_all_iff)

lemma extends_by_log_add: "Q \<lparr>message = m, code = c, logLevel = l\<rparr> \<Longrightarrow> extends_by Q L (log_add l m c L)"
  by (simp add: extends_by_def)

lemma extends_by_log_append: "list_all Q es \<Longrightarrow> extends_by Q L (log_append es L)"
  by (simp add: extends_by_def)

lemma extends_by_set_child: "extends_by Q L L' \<Longrightarrow> extends_by Q L (set_child C L')"
  by (simp add: extends_by_def)

lemma plain_entries [simp]:
  "plain missing_iss_entry" "plain download_error" "plain (retrieving_info url)"
  "plain (verification_error msg)" "plain (inflation_error err)" "plain length_warning"
  "c \<noteq> Some TRAILING_CHARACTERS \<Longrightarrow> l \<noteq> FATAL \<Longrightarrow> plain \<lparr>message = m, code = c, logLevel = l\<rparr>"
  by (simp_all add: plain_def missing_iss_entry_def download_error_def retrieving_info_def
        verification_error_def inflation_error_def length_warning_def)

lemma plain_parts_debug [simp]: "list_all plain (parts_debug env p0 p2)"
  by (simp add: parts_debug_def header_debug_def key_debug_def)

lemma iss_presence_log_extends: "extends_by plain L (iss_presence_log i L)"
  by (simp add: iss_presence_log_def extends_by_refl extends_by_log_append)

lemma iss_url_log_extends: "extends_by plain L (iss_url_log u L)"
  unfolding iss_url_log_def Let_def
  by (auto intro!: extends_by_refl extends_by_log_add
        intro: extends_by_trans [OF extends_by_log_add extends_by_log_add])

lemma downloadKey_extends:
  "extends_by (\<lambda>e. plain e \<or> key_entry env e) L (fst (downloadKey env u L st))"
proof (cases "got_json env (u @ ''/.well-known/jwks.json'')")
  case None
  then show ?thesis by (simp add: downloadKey_def Let_def extends_by_def)
next
  case (Some ks)
  obtain es st' r where v: "verifyHealthCardIssuerKey env ks u st = (es, st', r)"
    by (cases "verifyHealthCardIssuerKey env ks u st") auto
  then have "fst (verifyHealthCardIssuerKey env ks u st) = es" by simp
  then have "list_all (key_entry env) es"
    unfolding list_all_iff key_entry_def by blast
  then have "list_all (\<lambda>e. plain e \<or> key_entry env e) es"
    by (simp add: list_all_iff)
  with Some v show ?thesis by (simp add: downloadKey_def Let_def extends_by_def)
qed

lemma verifyJws_extends: "extends_by plain L (snd (verifyJws env j L st))"
  by (simp add: verifyJws_def extends_by_def split: option.splits)

lemma inflate_payload_extends: "extends_by plain L (snd (inflate_payload env raw L))"
  by (simp add: inflate_payload_def extends_by_def split: sum.splits)

lemma validate_issuer_extends:
  "extends_by (\<lambda>e. plain e \<or> key_entry env e) L (outcome_log (validate_issuer env st j p L))"
proof (cases "iss p")
  case None
  then show ?thesis
    using extends_by_mono [OF iss_presence_log_extends [of L None]]
    by (simp add: validate_issuer_def Let_def)
next
  case (Some u)
  let ?Q = "\<lambda>e. plain e \<or> key_entry env e"
  let ?L3 = "iss_url_log u (iss_presence_log (Some u) L)"
  let ?d = "downloadKey env u ?L3 st"
  let ?v = "verifyJws env j (fst ?d) (snd ?d)"
  have 1: "extends_by ?Q L ?L3"
    by (rule extends_by_mono [OF extends_by_trans [OF iss_presence_log_extends iss_url_log_extends]]) simp
  have 2: "extends_by ?Q ?L3 (fst ?d)" by (rule downloadKey_extends)
  have 3: "extends_by ?Q (fst ?d) (snd ?v)"
    by (rule extends_by_mono [OF verifyJws_extends]) simp
  have 4: "extends_by ?Q (snd ?v) (if fst ?v then log_add INFO ''JWS signature verified'' None (snd ?v) else snd ?v)"
    by (simp add: extends_by_refl extends_by_log_add)
  have "outcome_log (validate_issuer env st j p L) =
      (if fst ?v then log_add INFO ''JWS signature verified'' None (snd ?v) else snd ?v)"
    using Some by (simp add: validate_issuer_def case_prod_beta Let_def)
  then show ?thesis
    using extends_by_trans [OF extends_by_trans [OF extends_by_trans [OF 1 2] 3] 4] by simp
qed

lemma iss_presence_log_child [simp]: "log_child (iss_presence_log i L) = log_child L"
  by (simp add: iss_presence_log_def)

lemma iss_url_log_child [simp]: "log_child (iss_url_log u L) = log_child L"
  by (simp add: iss_url_log_def Let_def)

lemma downloadKey_child [simp]: "log_child (fst (downloadKey env u L st)) = log_child L"
  by (simp add: downloadKey_def Let_def case_prod_beta split: option.splits)

lemma verifyJws_child [simp]: "log_child (snd (verifyJws env j L st)) = log_child L"
  by (simp add: verifyJws_def split: option.splits)

lemma inflate_payload_child [simp]: "log_child (snd (inflate_payload env raw L)) = log_child L"
  by (simp add: inflate_payload_def split: sum.splits)

lemma validate_issuer_child:
  "log_child (outcome_log (validate_issuer env st j p L)) = log_child L"
  by (cases "iss p") (simp_all add: validate_issuer_def case_prod_beta Let_def)

lemma validate_issuer_value:
  "outcome_value (validate_issuer env st j p L) =
     (case iss p of None \<Rightarrow> Inl TypeError
      | Some u \<Rightarrow> Inr (Some j, snd (downloadKey env u (iss_url_log u (iss_presence_log (Some u) L)) st)))"
  by (cases "iss p") (simp_all add: validate_issuer_def case_prod_beta Let_def)

lemma validate_payload_extends:
  "extends_by (\<lambda>e. plain e \<or> key_entry env e) L (outcome_log (validate_payload env st j raw L))"
proof -
  let ?Q = "\<lambda>e. plain e \<or> key_entry env e"
  let ?ip = "inflate_payload env raw L"
  let ?pv = "jwsPayload_validate env (or_else (fst ?ip) raw)"
  let ?L5 = "set_child (snd ?pv) (snd ?ip)"
  have 1: "extends_by ?Q L ?L5"
    by (rule extends_by_set_child [OF extends_by_mono [OF inflate_payload_extends]]) simp
  show ?thesis
  proof (cases "fst ?pv")
    case None
    then show ?thesis using 1 by (simp add: validate_payload_def case_prod_beta Let_def)
  next
    case (Some p)
    then show ?thesis
      using extends_by_trans [OF 1 validate_issuer_extends [of env ?L5 st j p]]
      by (simp add: validate_payload_def case_prod_beta Let_def)
  qed
qed

lemma validate_payload_child:
  "log_child (outcome_log (validate_payload env st j raw L)) =
     Some (snd (jwsPayload_validate env (or_else (fst (inflate_payload env raw L)) raw)))"
  by (simp add: validate_payload_def case_prod_beta Let_def validate_issuer_child
        split: option.splits)

lemma validate_payload_value:
  "outcome_value (validate_payload env st j raw L) =
     (case fst (jwsPayload_validate env (or_else (fst (inflate_payload env raw L)) raw)) of
        None \<Rightarrow> Inr (None, st)
      | Some p \<Rightarrow> outcome_value (validate_issuer env st j p
           (set_child (snd (jwsPayload_validate env (or_else (fst (inflate_payload env raw L)) raw)))
              (snd (inflate_payload env raw L)))))"
  by (simp add: validate_payload_def case_prod_beta Let_def split: option.splits)

section \<open>Properties of the Compact Token Validator\<close>

lemma validate_regex_ok:
  assumes "regex_test (trim jws)" "split_dot (trim jws) = p0 # p1 # p2 # rest"
  shows "validate env st jws =
     validate_payload env st (trim jws) p1
       (log_append (parts_debug env p0 p2)
          (log_append (validateSchema env (trim jws))
             (Log ''JWS-compact'' (prelude_entries jws) None)))"
  using assms by (simp add: validate_unfold validate_parts_split)

text \<open>
  C2, amended. \<open>validate\<close> returns an undefined result exactly when the trimmed input
  fails the shape test or the Payload Validator returns no payload for the text it is
  handed. In every other case in which the payload has an \<open>iss\<close>, \<open>validate\<close>
  returns, and its result is the trimmed input; and whenever it returns a defined result,
  that result is the trimmed input.
\<close>

theorem undefined_result_iff:
  "((\<exists>s' L. validate env st jws = Returned (None, s') L) \<longleftrightarrow>
      (\<not> regex_test (trim jws) \<or>
       (\<exists>t. payload_text env (trim jws) = Some t \<and> fst (jwsPayload_validate env t) = None)))
   \<and> (\<forall>r s' L. validate env st jws = Returned (Some r, s') L \<longrightarrow> r = trim jws)
   \<and> (\<forall>t p u. regex_test (trim jws) \<and> payload_text env (trim jws) = Some t
          \<and> fst (jwsPayload_validate env t) = Some p \<and> iss p = Some u \<longrightarrow>
          (\<exists>s' L. validate env st jws = Returned (Some (trim jws), s') L))"
proof (cases "regex_test (trim jws)")
  case False
  then show ?thesis by (simp add: validate_unfold)
next
  case True
  from regex_test_parts [OF True] obtain p0 p1 p2 rest
    where sp: "split_dot (trim jws) = p0 # p1 # p2 # rest" by blast
  define L where "L = log_append (parts_debug env p0 p2)
          (log_append (validateSchema env (trim jws))
             (Log ''JWS-compact'' (prelude_entries jws) None))"
  define t where "t = or_else (fst (inflate_payload env p1 L)) p1"
  have v: "validate env st jws = validate_payload env st (trim jws) p1 L"
    unfolding L_def by (rule validate_regex_ok [OF True sp])
  have pt: "payload_text env (trim jws) = Some t"
    unfolding t_def by (rule payload_text_split [OF sp])
  have val: "outcome_value (validate env st jws) =
     (case fst (jwsPayload_validate env t) of
        None \<Rightarrow> Inr (None, st)
      | Some p \<Rightarrow> outcome_value (validate_issuer env st (trim jws) p
           (set_child (snd (jwsPayload_validate env t)) (snd (inflate_payload env p1 L)))))"
    unfolding v t_def by (rule validate_payload_value)
  show ?thesis
  proof (cases "fst (jwsPayload_validate env t)")
    case None
    with val have "outcome_value (validate env st jws) = Inr (None, st)" by simp
    then have "\<exists>L'. validate env st jws = Returned (None, st) L'"
      by (cases "validate env st jws") auto
    with None pt True show ?thesis by auto
  next
    case (Some p)
    with val have val': "outcome_value (validate env st jws) =
        outcome_value (validate_issuer env st (trim jws) p
           (set_child (snd (jwsPayload_validate env t)) (snd (inflate_payload env p1 L))))"
      by simp
    have "outcome_value (validate env st jws) \<noteq> Inr (None, s')" for s'
      unfolding val' validate_issuer_value by (simp split: option.splits)
    then have no: "validate env st jws \<noteq> Returned (None, s') L'" for s' L'
      by (metis outcome_value.simps(1))
    have "outcome_value (validate env st jws) = Inr (Some r, s') \<Longrightarrow> r = trim jws" for r s'
      unfolding val' validate_issuer_value by (simp split: option.splits)
    then have yes: "validate env st jws = Returned (Some r, s') L' \<Longrightarrow> r = trim jws" for r s' L'
      by (metis outcome_value.simps(1))
    have pos: "\<exists>s' L'. validate env st jws = Returned (Some (trim jws), s') L'"
      if "iss p = Some u" for u
    proof -
      from that have "\<exists>s'. outcome_value (validate env st jws) = Inr (Some (trim jws), s')"
        unfolding val' validate_issuer_value by simp
      then show ?thesis by (cases "validate env st jws") auto
    qed
    have 1: "(\<exists>s' L. validate env st jws = Returned (None, s') L) \<longleftrightarrow>
      (\<not> regex_test (trim jws) \<or>
       (\<exists>t. payload_text env (trim jws) = Some t \<and> fst (jwsPayload_validate env t) = None))"
      using no Some pt True by auto
    have 2: "\<forall>r s' L. validate env st jws = Returned (Some r, s') L \<longrightarrow> r = trim jws"
      using yes by blast
    have 3: "\<forall>t p u. regex_test (trim jws) \<and> payload_text env (trim jws) = Some t
          \<and> fst (jwsPayload_validate env t) = Some p \<and> iss p = Some u \<longrightarrow>
          (\<exists>s' L. validate env st jws = Returned (Some (trim jws), s') L)"
      using pos Some pt by auto
    from 1 2 3 show ?thesis by blast
  qed
qed

theorem undefined_result_iff_witness:
  "regex_test (trim '' a.eA.c '')
   \<and> payload_text ex_env (trim '' a.eA.c '') = Some ''ISS''
   \<and> fst (jwsPayload_validate ex_env ''ISS'') = Some \<lparr>iss = Some ''https://example.org/issuer''\<rparr>
   \<and> (\<exists>s' L. validate ex_env [] '' a.eA.c '' = Returned (Some (trim '' a.eA.c ''), s') L)
   \<and> outcome_value (validate ex_env [] '' a.eA.c '') = Inr (Some ''a.eA.c'', [])
   \<and> ''a.eA.c'' = trim '' a.eA.c ''
   \<and> (\<exists>s' L. validate ex_env [] ''abc'' = Returned (None, s') L)"
proof -
  have r: "regex_test (trim '' a.eA.c '')" by code_simp
  have t: "payload_text ex_env (trim '' a.eA.c '') = Some ''ISS''" by code_simp
  have p: "fst (jwsPayload_validate ex_env ''ISS'')
      = Some \<lparr>iss = Some ''https://example.org/issuer''\<rparr>" by code_simp
  have i: "iss \<lparr>iss = Some ''https://example.org/issuer''\<rparr> = Some ''https://example.org/issuer''"
    by simp
  from undefined_result_iff [of ex_env "[]" "'' a.eA.c ''"] r t p i
  have 0: "\<exists>s' L. validate ex_env [] '' a.eA.c '' = Returned (Some (trim '' a.eA.c ''), s') L"
    by blast
  have e: "outcome_value (validate ex_env [] '' a.eA.c '') = Inr (Some ''a.eA.c'', [])"
    by code_simp
  then obtain L where "validate ex_env [] '' a.eA.c '' = Returned (Some ''a.eA.c'', []) L"
    by (cases "validate ex_env [] '' a.eA.c ''") auto
  with undefined_result_iff [of ex_env "[]" "'' a.eA.c ''"]
  have 1: "''a.eA.c'' = trim '' a.eA.c ''" by blast
  have n: "\<not> regex_test (trim ''abc'')" by code_simp
  with undefined_result_iff [of ex_env "[]" "''abc''"]
  have 2: "\<exists>s' L. validate ex_env [] ''abc'' = Returned (None, s') L" by blast
  from r t p 0 e 1 2 show ?thesis by blast
qed

theorem undefined_result_counterexample:
  "validate ex_env [] ''abc'' = Returned (None, []) (Log ''JWS-compact'' [parse_fatal] None)
   \<and> outcome_value (validate ex_env [] '' a.eA.c '') = Inr (Some ''a.eA.c'', [])
   \<and> ''a.eA.c'' \<noteq> '' a.eA.c ''"
  by code_simp

lemma split_dot_single: "split_dot s = [p] \<Longrightarrow> s = p"
  by (induction s arbitrary: p) (auto simp: split_dot_nonempty split: if_splits list.splits)

lemma split_dot_more:
  "split_dot s = p # q # ps \<Longrightarrow> \<exists>r. s = p @ CHR ''.'' # r \<and> split_dot r = q # ps"
proof (induction s arbitrary: p)
  case Nil
  then show ?case by simp
next
  case (Cons c cs)
  show ?case
  proof (cases "c = CHR ''.''")
    case True
    with Cons.prems show ?thesis by auto
  next
    case False
    with Cons.prems obtain p' where p': "split_dot cs = p' # q # ps" "p = c # p'"
      by (auto split: list.splits)
    from Cons.IH [OF p'(1)] obtain r where "cs = p' @ CHR ''.'' # r" "split_dot r = q # ps"
      by blast
    with p' show ?thesis by auto
  qed
qed

lemma split_dot_three:
  assumes "split_dot s = [x, y, z]"
  shows "s = x @ CHR ''.'' # y @ CHR ''.'' # z"
proof -
  from split_dot_more [OF assms] obtain r where r: "s = x @ CHR ''.'' # r" "split_dot r = [y, z]"
    by blast
  from split_dot_more [OF r(2)] obtain r' where r': "r = y @ CHR ''.'' # r'" "split_dot r' = [z]"
    by blast
  from split_dot_single [OF r'(2)] r r' show ?thesis by simp
qed

lemma dropWhile_run:
  "list_all is_b64url x \<Longrightarrow> dropWhile is_b64url (x @ CHR ''.'' # r) = CHR ''.'' # r"
  by (simp add: dropWhile_append2 list_all_iff not_b64url_dot)

lemma match_here_intro:
  assumes "b64url_part x" "b64url_part y" "b64url_part z"
  shows "match_here (x @ CHR ''.'' # y @ CHR ''.'' # z @ post)"
proof -
  from assms obtain a x' where x: "x = a # x'" "is_b64url a" "list_all is_b64url x"
    by (cases x) (auto simp: b64url_part_def)
  from assms obtain b y' where y: "y = b # y'" "is_b64url b" "list_all is_b64url y"
    by (cases y) (auto simp: b64url_part_def)
  from assms obtain c z' where z: "z = c # z'" "is_b64url c"
    by (cases z) (auto simp: b64url_part_def)
  have 1: "dropWhile is_b64url (x @ CHR ''.'' # y @ CHR ''.'' # z @ post)
             = CHR ''.'' # y @ CHR ''.'' # z @ post"
    by (rule dropWhile_run [OF x(3)])
  have 2: "dropWhile is_b64url (y @ CHR ''.'' # z @ post) = CHR ''.'' # z @ post"
    by (rule dropWhile_run [OF y(3)])
  show ?thesis
    unfolding match_here_def 1
    using 2 x(1,2) y(1,2) z by (simp add: 1 [unfolded x(1), simplified])
qed

lemma regex_test_append: "regex_test t \<Longrightarrow> regex_test (pre @ t)"
  by (induction pre) auto

lemma match_here_regex: "match_here t \<Longrightarrow> regex_test t"
  by (cases t) (auto simp: match_here_def)

lemma segmentable_regex: "segmentable s \<Longrightarrow> regex_test s"
proof -
  assume "segmentable s"
  then obtain x y z where sp: "split_dot s = [x, y, z]"
    and parts: "b64url_part x" "b64url_part y" "b64url_part z"
    by (auto simp: segmentable_def split: list.splits)
  have "s = x @ CHR ''.'' # y @ CHR ''.'' # z @ []"
    using split_dot_three [OF sp] by simp
  then show ?thesis
    using match_here_regex [OF match_here_intro [OF parts, of "[]"]] by simp
qed

lemma match_here_elim:
  assumes "match_here s"
  shows "\<exists>x y z post. s = x @ CHR ''.'' # y @ CHR ''.'' # z @ post
           \<and> b64url_part x \<and> b64url_part y \<and> b64url_part z"
proof -
  from assms obtain c cs where s: "s = c # cs" "is_b64url c"
    by (cases s) (auto simp: match_here_def)
  from assms obtain r1 where r1: "dropWhile is_b64url s = CHR ''.'' # r1"
    by (auto simp: match_here_def split: list.splits)
  with assms obtain c1 cs1 where c1: "r1 = c1 # cs1" "is_b64url c1"
    by (cases r1) (auto simp: match_here_def split: list.splits)
  from assms r1 obtain r2 where r2: "dropWhile is_b64url r1 = CHR ''.'' # r2"
    by (auto simp: match_here_def split: list.splits)
  with assms r1 obtain c2 cs2 where c2: "r2 = c2 # cs2" "is_b64url c2"
    by (cases r2) (auto simp: match_here_def split: list.splits)
  let ?x = "takeWhile is_b64url s" and ?y = "takeWhile is_b64url r1"
  have eq: "s = ?x @ CHR ''.'' # ?y @ CHR ''.'' # [c2] @ cs2"
    using r1 r2 c2(1) by (metis append_Cons append_Nil takeWhile_dropWhile_id)
  have x: "b64url_part ?x"
    using s by (auto simp: b64url_part_def list_all_iff dest: set_takeWhileD)
  have y: "b64url_part ?y"
    using c1 by (auto simp: b64url_part_def list_all_iff dest: set_takeWhileD)
  have z: "b64url_part [c2]" using c2 by (simp add: b64url_part_def)
  from eq x y z show ?thesis by blast
qed

lemma regex_test_iff:
  "regex_test s \<longleftrightarrow>
     (\<exists>pre x y z post. s = pre @ x @ CHR ''.'' # y @ CHR ''.'' # z @ post
        \<and> b64url_part x \<and> b64url_part y \<and> b64url_part z)"
proof
  show "regex_test s \<Longrightarrow> \<exists>pre x y z post. s = pre @ x @ CHR ''.'' # y @ CHR ''.'' # z @ post
        \<and> b64url_part x \<and> b64url_part y \<and> b64url_part z"
  proof (induction s)
    case Nil
    then show ?case by simp
  next
    case (Cons c cs)
    show ?case
    proof (cases "match_here (c # cs)")
      case True
      from match_here_elim [OF True] show ?thesis by (metis append_Nil)
    next
      case False
      with Cons obtain pre x y z post where
        "cs = pre @ x @ CHR ''.'' # y @ CHR ''.'' # z @ post"
        "b64url_part x" "b64url_part y" "b64url_part z" by auto
      then have "c # cs = (c # pre) @ x @ CHR ''.'' # y @ CHR ''.'' # z @ post
        \<and> b64url_part x \<and> b64url_part y \<and> b64url_part z" by simp
      then show ?thesis by blast
    qed
  qed
next
  assume "\<exists>pre x y z post. s = pre @ x @ CHR ''.'' # y @ CHR ''.'' # z @ post
        \<and> b64url_part x \<and> b64url_part y \<and> b64url_part z"
  then obtain pre x y z post where s: "s = pre @ x @ CHR ''.'' # y @ CHR ''.'' # z @ post"
    and parts: "b64url_part x" "b64url_part y" "b64url_part z" by blast
  show "regex_test s"
    unfolding s
    by (rule regex_test_append [OF match_here_regex [OF match_here_intro [OF parts]]])
qed

lemma validate_child:
  assumes "regex_test (trim jws)"
  shows "\<exists>t. payload_text env (trim jws) = Some t
           \<and> log_child (outcome_log (validate env st jws)) = Some (snd (jwsPayload_validate env t))"
proof -
  from regex_test_parts [OF assms] obtain p0 p1 p2 rest
    where sp: "split_dot (trim jws) = p0 # p1 # p2 # rest" by blast
  show ?thesis
    unfolding validate_regex_ok [OF assms sp] validate_payload_child
    using payload_text_split [OF sp] by blast
qed

text \<open>
  C3, amended. The test of line 37 searches the trimmed input for the shape \<open>x.y.z\<close>;
  it does not ask that the whole input has it. When the trimmed input holds no such
  substring, \<open>validate\<close> logs the fatal entry after the warnings of lines 28 to 35 and
  returns an undefined result with no child log: nothing else ran. When it holds one,
  processing goes on: the Payload Validator is called and its log becomes the child.
  An input that is three dot-separated base64url parts passes the test.
\<close>

theorem shape_test_gate:
  "(\<not> regex_test (trim jws) \<longrightarrow>
      validate env st jws =
        Returned (None, st) (Log ''JWS-compact'' (prelude_entries jws @ [parse_fatal]) None))
   \<and> (regex_test (trim jws) \<longrightarrow>
        (\<exists>t. payload_text env (trim jws) = Some t
           \<and> log_child (outcome_log (validate env st jws))
               = Some (snd (jwsPayload_validate env t))))
   \<and> (segmentable (trim jws) \<longrightarrow> regex_test (trim jws))
   \<and> (regex_test (trim jws) \<longleftrightarrow>
        (\<exists>pre x y z post. trim jws = pre @ x @ CHR ''.'' # y @ CHR ''.'' # z @ post
           \<and> b64url_part x \<and> b64url_part y \<and> b64url_part z))"
  using validate_child [of jws env st] segmentable_regex [of "trim jws"]
    regex_test_iff [of "trim jws"]
  by (simp add: validate_unfold)

theorem shape_test_gate_witness:
  "\<not> regex_test (trim ''a..c'')
   \<and> validate ex_env [] ''a..c'' = Returned (None, []) (Log ''JWS-compact'' [parse_fatal] None)
   \<and> segmentable (trim ''a.eA.c'') \<and> regex_test (trim ''a.eA.c'')
   \<and> payload_text ex_env (trim ''a.eA.c'') = Some ''ISS''
   \<and> log_child (outcome_log (validate ex_env [] ''a.eA.c''))
       = Some (snd (jwsPayload_validate ex_env ''ISS''))"
proof -
  have n: "\<not> regex_test (trim ''a..c'')" by code_simp
  have p: "prelude_entries ''a..c'' = []" by code_simp
  have s: "segmentable (trim ''a.eA.c'')" by code_simp
  have t: "payload_text ex_env (trim ''a.eA.c'') = Some ''ISS''" by code_simp
  from shape_test_gate [of "''a..c''" ex_env "[]"] n p
  have 1: "validate ex_env [] ''a..c'' = Returned (None, []) (Log ''JWS-compact'' [parse_fatal] None)"
    by simp
  from shape_test_gate [of "''a.eA.c''" ex_env "[]"] s t
  have 2: "regex_test (trim ''a.eA.c'')"
    and 3: "log_child (outcome_log (validate ex_env [] ''a.eA.c''))
       = Some (snd (jwsPayload_validate ex_env ''ISS''))"
    by auto
  from n 1 s 2 t 3 show ?thesis by blast
qed

theorem shape_test_counterexample:
  "\<not> segmentable (trim ''!a.eA.c'')
   \<and> split_dot (trim ''!a.eA.c'') = [''!a'', ''eA'', ''c'']
   \<and> \<not> b64url_part ''!a''
   \<and> outcome_value (validate ex_env [] ''!a.eA.c'') = Inr (Some ''!a.eA.c'', [])
   \<and> log_child (outcome_log (validate ex_env [] ''!a.eA.c''))
       = Some (snd (ex_payload_validate ''ISS''))
   \<and> parse_fatal \<notin> set (log_entries (outcome_log (validate ex_env [] ''!a.eA.c'')))
   \<and> \<not> segmentable (trim ''a.eA.c.d'')
   \<and> split_dot (trim ''a.eA.c.d'') = [''a'', ''eA'', ''c'', ''d'']
   \<and> outcome_value (validate ex_env [] ''a.eA.c.d'') = Inr (Some ''a.eA.c.d'', [])
   \<and> parse_fatal \<notin> set (log_entries (outcome_log (validate ex_env [] ''a.eA.c.d'')))"
  by code_simp

text \<open>
  C1. A payload that parses but has no \<open>iss\<close>: \<open>validate\<close> logs the schema error of
  line 87 and then throws at line 90, where \<open>payload.iss.slice\<close> reads a property of
  \<open>undefined\<close>; the key download and the signature check are never reached.
\<close>

theorem missing_iss_throws:
  "fst (jwsPayload_validate ex_env ''NOISS'') = Some \<lparr>iss = None\<rparr>
   \<and> payload_text ex_env ''a.eQ.c'' = Some ''NOISS''
   \<and> validate ex_env [] ''a.eQ.c'' =
       Threw TypeError
         (Log ''JWS-compact''
            [\<lparr>message = ''JWS.header = '', code = None, logLevel = DEBUG\<rparr>,
             \<lparr>message = ''JWS.key (hex) = 63'', code = None, logLevel = DEBUG\<rparr>,
             \<lparr>message = ''JWS payload inflated'', code = None, logLevel = INFO\<rparr>,
             missing_iss_entry]
            (Some (snd (ex_payload_validate ''NOISS''))))"
  by code_simp

lemma validate_missing_iss:
  assumes "regex_test (trim jws)" "payload_text env (trim jws) = Some t"
    "fst (jwsPayload_validate env t) = Some p" "iss p = None"
  shows "\<exists>L. validate env st jws = Threw TypeError L \<and> last (log_entries L) = missing_iss_entry"
proof -
  from regex_test_parts [OF assms(1)] obtain p0 p1 p2 rest
    where sp: "split_dot (trim jws) = p0 # p1 # p2 # rest" by blast
  define L where "L = log_append (parts_debug env p0 p2)
          (log_append (validateSchema env (trim jws))
             (Log ''JWS-compact'' (prelude_entries jws) None))"
  have t: "t = or_else (fst (inflate_payload env p1 L)) p1"
    using payload_text_split [OF sp, of env L] assms(2) by simp
  show ?thesis
    unfolding validate_regex_ok [OF assms(1) sp] L_def [symmetric]
    using assms(3,4) t
    by (simp add: validate_payload_def case_prod_beta Let_def validate_issuer_def
          iss_presence_log_def)
qed

lemma extends_by_set: "extends_by Q L L' \<Longrightarrow> set (log_entries L) \<subseteq> set (log_entries L')"
  by (auto simp: extends_by_def)

text \<open>
  C4, amended. When the inflation of the payload segment fails, \<open>validate\<close> logs the
  inflation error at error severity and goes on: the Payload Validator is called, and the
  text it is handed is the payload segment as it stands in the token, still base64url
  encoded (\<open>parts[1]\<close>), not the bytes the segment decodes to.
\<close>

theorem inflation_failure_continues:
  assumes "regex_test (trim jws)"
    and "split_dot (trim jws) = p0 # rawPayload # rest"
    and "inflateRaw env (base64_decode env rawPayload) = Inl err"
  shows "inflation_error err \<in> set (log_entries (outcome_log (validate env st jws)))
    \<and> logLevel (inflation_error err) = ERROR
    \<and> code (inflation_error err) = Some INFLATION_ERROR
    \<and> payload_text env (trim jws) = Some rawPayload
    \<and> log_child (outcome_log (validate env st jws))
        = Some (snd (jwsPayload_validate env rawPayload))"
proof -
  from regex_test_parts [OF assms(1)] assms(2) obtain p2 rest'
    where sp: "split_dot (trim jws) = p0 # rawPayload # p2 # rest'" by auto
  define L where "L = log_append (parts_debug env p0 p2)
          (log_append (validateSchema env (trim jws))
             (Log ''JWS-compact'' (prelude_entries jws) None))"
  have v: "validate env st jws = validate_payload env st (trim jws) rawPayload L"
    unfolding L_def by (rule validate_regex_ok [OF assms(1) sp])
  have ip: "inflate_payload env rawPayload L' = (None, log_append [inflation_error err] L')" for L'
    using assms(3) by (simp add: inflate_payload_def)
  have t: "payload_text env (trim jws) = Some rawPayload"
    using payload_text_split [OF sp, of env L] by (simp add: ip or_else_def)
  have c: "log_child (outcome_log (validate env st jws))
        = Some (snd (jwsPayload_validate env rawPayload))"
    unfolding v validate_payload_child by (simp add: ip or_else_def)
  let ?pv = "jwsPayload_validate env rawPayload"
  let ?L5 = "set_child (snd ?pv) (log_append [inflation_error err] L)"
  have "set (log_entries ?L5) \<subseteq> set (log_entries (outcome_log (validate env st jws)))"
  proof (cases "fst ?pv")
    case None
    then show ?thesis by (simp add: v validate_payload_def ip or_else_def case_prod_beta)
  next
    case (Some p)
    then have "outcome_log (validate env st jws)
        = outcome_log (validate_issuer env st (trim jws) p ?L5)"
      by (simp add: v validate_payload_def ip or_else_def case_prod_beta)
    then show ?thesis
      using extends_by_set [OF validate_issuer_extends [of env ?L5 st "trim jws" p]] by simp
  qed
  then have e: "inflation_error err \<in> set (log_entries (outcome_log (validate env st jws)))"
    by auto
  from e t c show ?thesis by (simp add: inflation_error_def)
qed

theorem inflation_failure_continues_witness:
  "regex_test (trim ''a.eg.c'')
   \<and> split_dot (trim ''a.eg.c'') = ''a'' # ''eg'' # [''c'']
   \<and> inflateRaw ex_env (base64_decode ex_env ''eg'') = Inl ''invalid stored block lengths''
   \<and> inflation_error ''invalid stored block lengths''
        \<in> set (log_entries (outcome_log (validate ex_env [] ''a.eg.c'')))
   \<and> payload_text ex_env (trim ''a.eg.c'') = Some ''eg''
   \<and> log_child (outcome_log (validate ex_env [] ''a.eg.c''))
        = Some (snd (jwsPayload_validate ex_env ''eg''))"
proof -
  have 1: "regex_test (trim ''a.eg.c'')" by code_simp
  have 2: "split_dot (trim ''a.eg.c'') = ''a'' # ''eg'' # [''c'']" by code_simp
  have 3: "inflateRaw ex_env (base64_decode ex_env ''eg'') = Inl ''invalid stored block lengths''"
    by code_simp
  from inflation_failure_continues [OF 1 2 3, of "[]"] 1 2 3 show ?thesis by simp
qed

theorem inflation_failure_counterexample:
  "inflateRaw ex_env (base64_decode ex_env ''eg'') = Inl ''invalid stored block lengths''
   \<and> base64_decode ex_env ''eg'' = ''z''
   \<and> payload_text ex_env ''a.eg.c'' = Some ''eg''
   \<and> log_child (outcome_log (validate ex_env [] ''a.eg.c''))
        = Some (snd (ex_payload_validate ''eg''))
   \<and> ex_payload_validate ''eg'' \<noteq> ex_payload_validate ''z''"
  by code_simp

text \<open>
  C5. A token that passes the shape test and whose payload parses with an issuer, when
  the key-set request fails and the signature does not verify against the key store as
  it stands: \<open>validate\<close> returns the trimmed token (a defined result) and leaves the
  key store as it was; its log ends with the retrieval entry, the issuer-key-download
  error and the signature-verification error, both at error severity; and no entry of its
  log is fatal unless the schema validator appended it.
\<close>

theorem unreachable_keys_still_return:
  assumes "regex_test (trim jws)"
    and "payload_text env (trim jws) = Some t"
    and "jwsPayload_validate env t = (Some p, payloadLog)"
    and "iss p = Some u"
    and "got_json env (u @ ''/.well-known/jwks.json'') = None"
    and "jose_verify env st (trim jws) = Some msg"
  shows "\<exists>es. validate env st jws =
            Returned (Some (trim jws), st)
              (Log ''JWS-compact''
                 (es @ [retrieving_info (u @ ''/.well-known/jwks.json''), download_error,
                        verification_error msg])
                 (Some payloadLog))
          \<and> list_all (\<lambda>e. logLevel e = FATAL \<longrightarrow> e \<in> set (validateSchema env (trim jws))) es
          \<and> logLevel download_error = ERROR \<and> code download_error = Some ISSUER_KEY_DOWNLOAD_ERROR
          \<and> logLevel (verification_error msg) = ERROR
          \<and> code (verification_error msg) = Some JWS_VERIFICATION_ERROR"
proof -
  from regex_test_parts [OF assms(1)] obtain p0 p1 p2 rest
    where sp: "split_dot (trim jws) = p0 # p1 # p2 # rest" by blast
  let ?S = "validateSchema env (trim jws)"
  let ?Q = "\<lambda>e. logLevel e = FATAL \<longrightarrow> e \<in> set ?S"
  define L0 where "L0 = Log ''JWS-compact'' (prelude_entries jws) None"
  define L where "L = log_append (parts_debug env p0 p2) (log_append ?S L0)"
  have pq: "plain e \<Longrightarrow> ?Q e" for e by (simp add: plain_def)
  have q0: "list_all ?Q (log_entries L)"
    using plain_parts_debug [of env p0 p2]
    by (auto simp: L_def L0_def prelude_entries_def list_all_iff trailing_warning_def
          length_warning_def plain_def)
  have v: "validate env st jws = validate_payload env st (trim jws) p1 L"
    unfolding L_def L0_def by (rule validate_regex_ok [OF assms(1) sp])
  have t: "t = or_else (fst (inflate_payload env p1 L)) p1"
    using payload_text_split [OF sp, of env L] assms(2) by simp
  define L5 where "L5 = set_child payloadLog (snd (inflate_payload env p1 L))"
  define L3 where "L3 = iss_url_log u (iss_presence_log (Some u) L5)"
  have "extends_by plain L L5"
    unfolding L5_def by (rule extends_by_set_child [OF inflate_payload_extends])
  moreover have "extends_by plain L5 L3"
    unfolding L3_def by (rule extends_by_trans [OF iss_presence_log_extends iss_url_log_extends])
  ultimately have "extends_by plain L L3" by (rule extends_by_trans)
  then obtain xs where xs: "log_entries L3 = log_entries L @ xs" "list_all plain xs"
    by (auto simp: extends_by_def)
  have q3: "list_all ?Q (log_entries L3)"
    using q0 xs pq by (auto simp: list_all_iff)
  have c3: "log_child L3 = Some payloadLog" by (simp add: L3_def L5_def)
  have t3: "log_title L3 = ''JWS-compact''"
    by (simp add: L3_def L5_def iss_url_log_def iss_presence_log_def Let_def L_def L0_def
          inflate_payload_def split: sum.splits)
  have d: "downloadKey env u L3 st =
      (log_append [retrieving_info (u @ ''/.well-known/jwks.json''), download_error] L3, st)"
    using assms(5) by (simp add: downloadKey_def Let_def log_append_def)
  have "validate env st jws =
      Returned (Some (trim jws), st)
        (log_append [retrieving_info (u @ ''/.well-known/jwks.json''), download_error,
                     verification_error msg] L3)"
    unfolding v using assms(3,4,6) t [symmetric]
    by (simp add: validate_payload_def case_prod_beta Let_def validate_issuer_def
          L5_def [symmetric] L3_def [symmetric] d verifyJws_def log_append_def)
  also have "log_append [retrieving_info (u @ ''/.well-known/jwks.json''), download_error,
                     verification_error msg] L3 =
      Log ''JWS-compact''
                 (log_entries L3 @ [retrieving_info (u @ ''/.well-known/jwks.json''), download_error,
                        verification_error msg])
                 (Some payloadLog)"
    by (simp add: log_append_def t3 c3)
  finally show ?thesis
    using q3 by (auto simp: download_error_def verification_error_def)
qed

theorem unreachable_keys_still_return_witness:
  "regex_test (trim ''a.eA.c'')
   \<and> payload_text ex_env (trim ''a.eA.c'') = Some ''ISS''
   \<and> got_json ex_env (''https://example.org/issuer'' @ ''/.well-known/jwks.json'') = None
   \<and> jose_verify ex_env [] (trim ''a.eA.c'') = Some ''no key found''
   \<and> (\<exists>es. validate ex_env [] ''a.eA.c'' =
            Returned (Some (trim ''a.eA.c''), [])
              (Log ''JWS-compact''
                 (es @ [retrieving_info (''https://example.org/issuer'' @ ''/.well-known/jwks.json''),
                        download_error, verification_error ''no key found''])
                 (Some (snd (ex_payload_validate ''ISS'')))))"
proof -
  have 1: "regex_test (trim ''a.eA.c'')" by code_simp
  have 2: "payload_text ex_env (trim ''a.eA.c'') = Some ''ISS''" by code_simp
  have 3: "jwsPayload_validate ex_env ''ISS'' =
      (Some \<lparr>iss = Some ''https://example.org/issuer''\<rparr>, snd (ex_payload_validate ''ISS''))"
    by code_simp
  have 4: "iss \<lparr>iss = Some ''https://example.org/issuer''\<rparr> = Some ''https://example.org/issuer''"
    by simp
  have 5: "got_json ex_env (''https://example.org/issuer'' @ ''/.well-known/jwks.json'') = None"
    by (simp add: ex_env_def)
  have 6: "jose_verify ex_env [] (trim ''a.eA.c'') = Some ''no key found''"
    by (simp add: ex_env_def)
  from unreachable_keys_still_return [OF 1 2 3 4 5 6] 1 2 5 6 show ?thesis by blast
qed

lemma trimmed_no_trailing_entries:
  assumes "silent_on TRAILING_CHARACTERS env" "trim j = j"
  shows "filter (\<lambda>e. code e = Some TRAILING_CHARACTERS)
           (log_entries (outcome_log (validate env st j))) = []"
proof (cases "regex_test j")
  case False
  then show ?thesis
    using assms(2)
    by (simp add: validate_unfold prelude_entries_def length_warning_def parse_fatal_def)
next
  case True
  from regex_test_parts [OF True] obtain p0 p1 p2 rest
    where sp: "split_dot j = p0 # p1 # p2 # rest" by blast
  let ?T = "\<lambda>e. code e = Some TRAILING_CHARACTERS"
  define L where "L = log_append (parts_debug env p0 p2)
          (log_append (validateSchema env j) (Log ''JWS-compact'' (prelude_entries j) None))"
  have v: "validate env st j = validate_payload env st j p1 L"
    using validate_regex_ok [of j p0 p1 p2 rest env st] True sp assms(2) by (simp add: L_def)
  have schema: "filter ?T (validateSchema env j) = []"
    using assms(1) by (auto simp: silent_on_def filter_empty_conv)
  have "filter ?T (parts_debug env p0 p2) = []"
    by (simp add: parts_debug_def header_debug_def key_debug_def)
  then have l: "filter ?T (log_entries L) = []"
    using assms(2) schema by (simp add: L_def prelude_entries_def length_warning_def)
  from validate_payload_extends [of env L st j p1] obtain es
    where es: "log_entries (outcome_log (validate env st j)) = log_entries L @ es"
      "list_all (\<lambda>e. plain e \<or> key_entry env e) es"
    unfolding v extends_by_def by blast
  have "filter ?T es = []"
    using es(2) assms(1) by (auto simp: filter_empty_conv list_all_iff plain_def silent_on_def)
  with l es(1) show ?thesis by simp
qed

text \<open>
  C7. \<open>validate\<close> gives a string and its trimmed form the same result value (or throws
  the same exception for both); the log for the string is the log for its trimmed form
  with the trailing-characters warning put first when trimming changed the string, and
  the same log otherwise. When no collaborator appends an entry with the
  trailing-characters code to the log of \<open>validate\<close>, the entries of that log with the
  code are the one warning when the string differs from its trimmed form, and none when
  it does not.
\<close>

theorem trim_invariance:
  "outcome_value (validate env st jws) = outcome_value (validate env st (trim jws))
   \<and> outcome_log (validate env st jws) =
       (if jws \<noteq> trim jws
        then prepend_entries [trailing_warning] (outcome_log (validate env st (trim jws)))
        else outcome_log (validate env st (trim jws)))
   \<and> (silent_on TRAILING_CHARACTERS env \<longrightarrow>
        filter (\<lambda>e. code e = Some TRAILING_CHARACTERS)
          (log_entries (outcome_log (validate env st jws)))
        = (if jws \<noteq> trim jws then [trailing_warning] else [])
        \<and> (has_code TRAILING_CHARACTERS (outcome_log (validate env st jws))
             \<longleftrightarrow> jws \<noteq> trim jws))"
proof -
  have 1: "outcome_value (validate env st jws) = outcome_value (validate env st (trim jws))"
    using validate_trim [of env st jws] by (cases "jws = trim jws") simp_all
  have 2: "outcome_log (validate env st jws) =
       (if jws \<noteq> trim jws
        then prepend_entries [trailing_warning] (outcome_log (validate env st (trim jws)))
        else outcome_log (validate env st (trim jws)))"
    using validate_trim [of env st jws] by (cases "jws = trim jws") simp_all
  have 3: "filter (\<lambda>e. code e = Some TRAILING_CHARACTERS)
          (log_entries (outcome_log (validate env st jws)))
        = (if jws \<noteq> trim jws then [trailing_warning] else [])"
    if silent: "silent_on TRAILING_CHARACTERS env"
  proof (cases "jws = trim jws")
    case True
    then have "trim jws = jws" by simp
    from trimmed_no_trailing_entries [OF silent this, of st] True show ?thesis by simp
  next
    case False
    have "outcome_log (validate env st jws) =
        prepend_entries [trailing_warning] (outcome_log (validate env st (trim jws)))"
      using False by (subst 2) simp
    with trimmed_no_trailing_entries [OF silent trim_idem, of st jws] False
    show ?thesis by (simp add: trailing_warning_def)
  qed
  have 4: "has_code TRAILING_CHARACTERS L \<longleftrightarrow>
      filter (\<lambda>e. code e = Some TRAILING_CHARACTERS) (log_entries L) \<noteq> []" for L
    by (auto simp: has_code_def filter_empty_conv)
  have 5: "silent_on TRAILING_CHARACTERS env \<longrightarrow>
        filter (\<lambda>e. code e = Some TRAILING_CHARACTERS)
          (log_entries (outcome_log (validate env st jws)))
        = (if jws \<noteq> trim jws then [trailing_warning] else [])
        \<and> (has_code TRAILING_CHARACTERS (outcome_log (validate env st jws))
             \<longleftrightarrow> jws \<noteq> trim jws)"
    using 3 by (simp add: 4)
  show ?thesis by (rule conjI [OF 1 conjI [OF 2 5]])
qed

lemma ex_env_silent: "silent_on TRAILING_CHARACTERS ex_env"
  by (simp add: silent_on_def key_entry_def ex_env_def)

theorem trim_invariance_witness:
  "silent_on TRAILING_CHARACTERS ex_env
   \<and> '' a.eA.c '' \<noteq> trim '' a.eA.c ''
   \<and> outcome_value (validate ex_env [] '' a.eA.c '')
       = outcome_value (validate ex_env [] (trim '' a.eA.c ''))
   \<and> filter (\<lambda>e. code e = Some TRAILING_CHARACTERS)
        (log_entries (outcome_log (validate ex_env [] '' a.eA.c ''))) = [trailing_warning]
   \<and> has_code TRAILING_CHARACTERS (outcome_log (validate ex_env [] '' a.eA.c ''))
   \<and> \<not> has_code TRAILING_CHARACTERS (outcome_log (validate ex_env [] ''a.eA.c''))"
proof -
  have n: "'' a.eA.c '' \<noteq> trim '' a.eA.c ''" by code_simp
  have e: "\<not> ''a.eA.c'' \<noteq> trim ''a.eA.c''" by code_simp
  note A = trim_invariance [of ex_env "[]" "'' a.eA.c ''"]
  note B = trim_invariance [of ex_env "[]" "''a.eA.c''"]
  have 1: "outcome_value (validate ex_env [] '' a.eA.c '')
       = outcome_value (validate ex_env [] (trim '' a.eA.c ''))"
    by (rule A [THEN conjunct1])
  from A [THEN conjunct2, THEN conjunct2] ex_env_silent
  have "filter (\<lambda>e. code e = Some TRAILING_CHARACTERS)
          (log_entries (outcome_log (validate ex_env [] '' a.eA.c '')))
        = (if '' a.eA.c '' \<noteq> trim '' a.eA.c '' then [trailing_warning] else [])
        \<and> (has_code TRAILING_CHARACTERS (outcome_log (validate ex_env [] '' a.eA.c ''))
             \<longleftrightarrow> '' a.eA.c '' \<noteq> trim '' a.eA.c '')"
    by blast
  then have 2: "filter (\<lambda>e. code e = Some TRAILING_CHARACTERS)
        (log_entries (outcome_log (validate ex_env [] '' a.eA.c ''))) = [trailing_warning]"
    and 3: "has_code TRAILING_CHARACTERS (outcome_log (validate ex_env [] '' a.eA.c ''))"
    using n by (simp_all only: if_True simp_thms)
  from B [THEN conjunct2, THEN conjunct2] ex_env_silent
  have "has_code TRAILING_CHARACTERS (outcome_log (validate ex_env [] ''a.eA.c''))
             \<longleftrightarrow> ''a.eA.c'' \<noteq> trim ''a.eA.c''"
    by blast
  then have 4: "\<not> has_code TRAILING_CHARACTERS (outcome_log (validate ex_env [] ''a.eA.c''))"
    using e by blast
  from ex_env_silent n 1 2 3 4 show ?thesis by blast
qed

section \<open>The Image QR Decoder, image by image\<close>

lemma log_append_Nil [simp]: "log_append [] L = L"
  by (cases L) (simp add: log_append_def)

lemma log_append_append: "log_append b (log_append a L) = log_append (a @ b) L"
  by (simp add: log_append_def)

lemma log_add_append: "log_add l m c L = log_append [\<lparr>message = m, code = c, logLevel = l\<rparr>] L"
  by (simp add: log_add_def log_append_def)

lemma decodeQrBuffer_some:
  "fst (decodeQrBuffer env f L) = Some s \<Longrightarrow> decodeQrBuffer env f L' = (Some s, L')"
  by (auto simp: decodeQrBuffer_def split: option.splits)

lemma decode_some:
  assumes "decode_value env img = Inr (Some s)"
  shows "decode env img L = Returned (Some s) L"
proof -
  let ?N = "new_Log []"
  show ?thesis
  proof (cases "fileType img = ''svg''")
    case True
    show ?thesis
    proof (cases "svg2img env (buffer_string env (buffer img))")
      case (Inl err)
      with True assms show ?thesis
        by (simp add: decode_value_def decode_def svgToImageBuffer_def)
    next
      case (Inr buf)
      let ?f = "img\<lparr>image_data := Some (png_read env buf)\<rparr>"
      from True Inr assms have "fst (decodeQrBuffer env ?f ?N) = Some s"
        by (simp add: decode_value_def decode_def svgToImageBuffer_def case_prod_beta)
      from decodeQrBuffer_some [OF this, of L] True Inr show ?thesis
        by (simp add: decode_def svgToImageBuffer_def)
    qed
  next
    case False
    show ?thesis
    proof (cases "fileType img \<in> set [''png'', ''jpg'', ''bmp'']")
      case True
      with False assms have "fst (decodeQrBuffer env img ?N) = Some s"
        by (simp add: decode_value_def decode_def case_prod_beta)
      from decodeQrBuffer_some [OF this, of L] True False show ?thesis
        by (simp add: decode_def)
    next
      case f: False
      with False assms show ?thesis by (simp add: decode_value_def decode_def)
    qed
  qed
qed

lemma decodeQrBuffer_none:
  assumes "fst (decodeQrBuffer env f L0) = None"
  shows "\<exists>e. decodeQrBuffer env f L = (None, log_append [e] L) \<and> logLevel e = FATAL
           \<and> (code e = Some QR_DECODE_ERROR \<longleftrightarrow>
                (case image_data f of None \<Rightarrow> False | Some data \<Rightarrow> jsQR env data = None))"
  using assms by (auto simp: decodeQrBuffer_def log_add_append split: option.splits)

lemma decode_none:
  assumes "decode_value env img = Inr None"
  shows "\<exists>e. decode env img L = Returned None (log_append [e] L) \<and> logLevel e = FATAL
           \<and> (code e = Some QR_DECODE_ERROR \<longleftrightarrow> qr_not_found env img)"
proof -
  let ?N = "new_Log []"
  show ?thesis
  proof (cases "fileType img = ''svg''")
    case True
    show ?thesis
    proof (cases "svg2img env (buffer_string env (buffer img))")
      case (Inl err)
      with True assms show ?thesis
        by (simp add: decode_value_def decode_def svgToImageBuffer_def)
    next
      case (Inr buf)
      let ?f = "img\<lparr>image_data := Some (png_read env buf)\<rparr>"
      from True Inr assms have "fst (decodeQrBuffer env ?f ?N) = None"
        by (simp add: decode_value_def decode_def svgToImageBuffer_def case_prod_beta)
      from decodeQrBuffer_none [OF this, of L] True Inr show ?thesis
        by (auto simp: decode_def svgToImageBuffer_def qr_not_found_def)
    qed
  next
    case False
    show ?thesis
    proof (cases "fileType img \<in> set [''png'', ''jpg'', ''bmp'']")
      case True
      with False assms have "fst (decodeQrBuffer env img ?N) = None"
        by (simp add: decode_value_def decode_def case_prod_beta)
      from decodeQrBuffer_none [OF this, of L] True False show ?thesis
        by (auto simp: decode_def qr_not_found_def)
    next
      case f: False
      with False show ?thesis
        by (auto simp: decode_def qr_not_found_def log_add_append)
    qed
  qed
qed

lemma decode_rejected:
  assumes "fileType img = ''svg''" "svg2img env (buffer_string env (buffer img)) = Inl err"
  shows "decode env img L = Threw Rejected (log_append [conversion_fatal err] L)"
  using assms by (simp add: decode_def svgToImageBuffer_def)

lemma decodes_text: "decodes env img \<Longrightarrow> decode_value env img = Inr (Some (decoded_text env img))"
  by (auto simp: decodes_def decoded_text_def split: sum.splits option.splits)

lemma decode_loop_prefix:
  assumes "list_all (decodes env) pre"
  shows "decode_loop env (pre @ rest) acc L =
     decode_loop env rest (acc @ map (decoded_text env) pre)
       (log_append (concat (map (image_log_entries env) pre)) L)"
  using assms
proof (induction pre arbitrary: acc L)
  case Nil
  then show ?case by simp
next
  case (Cons img pre)
  from Cons.prems have d: "decodes env img" and r: "list_all (decodes env) pre" by simp_all
  have "decode env img L = Returned (Some (decoded_text env img)) L"
    by (rule decode_some [OF decodes_text [OF d]])
  then show ?case
    by (simp add: Cons.IH [OF r] log_add_append log_append_append image_log_entries_def)
qed

lemma length_json_escape: "1 \<le> length (json_escape c)"
  by (simp add: json_escape_def)

lemma length_concat_escape: "length s \<le> length (concat (map json_escape s))"
proof (induction s)
  case Nil
  then show ?case by simp
next
  case (Cons c s)
  with length_json_escape [of c] show ?case by simp
qed

lemma json_stringify_single:
  "json_stringify [s] = ''['' @ json_quote s @ '']''" "json_stringify [s] \<noteq> s"
proof -
  show 1: "json_stringify [s] = ''['' @ json_quote s @ '']''"
    by (simp add: json_stringify_def)
  have "length s < length (json_stringify [s])"
    using length_concat_escape [of s] by (simp add: 1 json_quote_def)
  then show "json_stringify [s] \<noteq> s" by auto
qed

section \<open>Properties of the Image QR Decoder\<close>

lemma json_escape_plain:
  "32 \<le> (of_char c :: nat) \<Longrightarrow> c \<noteq> CHR 0x22 \<Longrightarrow> c \<noteq> CHR 0x5C \<Longrightarrow> json_escape c = [c]"
  by (auto simp: json_escape_def)

lemma concat_escape_plain: "json_plain s \<Longrightarrow> concat (map json_escape s) = s"
  by (induction s) (simp_all add: json_plain_def json_escape_plain)

lemma json_quote_plain: "json_plain s \<Longrightarrow> json_quote s = [CHR 0x22] @ s @ [CHR 0x22]"
  by (simp add: json_quote_def concat_escape_plain)

lemma json_stringify_two:
  "json_stringify [''shc:/1'', ''shc:/2''] =
     [CHR ''['', CHR 0x22] @ ''shc:/1'' @ [CHR 0x22, CHR '','', CHR 0x22] @ ''shc:/2''
       @ [CHR 0x22, CHR '']'']"
  by code_simp

lemma json_stringify_escapes:
  "json_stringify [[CHR ''a'', CHR 0x22, CHR 0x5C, CHR 0x0A]] =
     [CHR ''['', CHR 0x22, CHR ''a'', CHR 0x5C, CHR 0x22, CHR 0x5C, CHR 0x5C, CHR 0x5C,
      CHR ''n'', CHR 0x22, CHR '']'']"
  by code_simp

text \<open>
  C10. When \<open>decode\<close> yields a text for every image of the batch, \<open>validate\<close> returns
  the JSON serialization of the array of those texts, in the order of the images, and its
  log holds, image by image, the two entries of lines 30 and 31, with the log of
  \<open>qr.validate\<close> on the array as its child. For one image the result is the array of
  one string in brackets, never the bare text: an opening bracket, the text in double
  quotes (as it stands when none of its characters needs an escape) and a closing
  bracket.
\<close>

theorem batch_result_is_json_array:
  assumes "list_all (decodes env) images"
  shows "image_validate env images =
           Returned (Some (json_stringify (map (decoded_text env) images)))
             (Log (batch_title (length images))
                (concat (map (image_log_entries env) images))
                (Some (snd (qr_validate env (map (decoded_text env) images)))))
         \<and> (length images = 1 \<longrightarrow>
              json_stringify (map (decoded_text env) images)
                = ''['' @ json_quote (decoded_text env (hd images)) @ '']''
              \<and> json_stringify (map (decoded_text env) images) \<noteq> decoded_text env (hd images))
         \<and> (length images = 1 \<and> json_plain (decoded_text env (hd images)) \<longrightarrow>
              outcome_value (image_validate env images)
                = Inr (Some ([CHR ''['', CHR 0x22] @ decoded_text env (hd images)
                              @ [CHR 0x22, CHR '']''])))"
proof -
  have "decode_loop env images [] (new_Log (batch_title (length images))) =
      Returned (Some (map (decoded_text env) images))
        (log_append (concat (map (image_log_entries env) images))
           (new_Log (batch_title (length images))))"
    using decode_loop_prefix [OF assms, of "[]" "[]"] by simp
  then have 1: "image_validate env images =
           Returned (Some (json_stringify (map (decoded_text env) images)))
             (Log (batch_title (length images))
                (concat (map (image_log_entries env) images))
                (Some (snd (qr_validate env (map (decoded_text env) images)))))"
    by (simp add: image_validate_def Let_def set_child_def log_append_def new_Log_def)
  have 2: "json_stringify (map (decoded_text env) images)
                = ''['' @ json_quote (decoded_text env (hd images)) @ '']''
              \<and> json_stringify (map (decoded_text env) images) \<noteq> decoded_text env (hd images)"
    if "length images = 1"
  proof -
    from that obtain img where "images = [img]" by (cases images) auto
    then show ?thesis using json_stringify_single [of "decoded_text env img"] by simp
  qed
  have 3: "outcome_value (image_validate env images)
                = Inr (Some ([CHR ''['', CHR 0x22] @ decoded_text env (hd images)
                              @ [CHR 0x22, CHR '']'']))"
    if "length images = 1" "json_plain (decoded_text env (hd images))"
    using 2 [OF that(1)] json_quote_plain [OF that(2)] by (simp add: 1)
  from 1 2 3 show ?thesis by blast
qed

theorem batch_result_is_json_array_witness:
  "list_all (decodes ex_image_env)
     [ex_file ''a.png'' ''png'' (Some ''shc:/1''), ex_file ''b.svg'' ''svg'' (Some ''shc:/2'')]
   \<and> outcome_value (image_validate ex_image_env
        [ex_file ''a.png'' ''png'' (Some ''shc:/1''), ex_file ''b.svg'' ''svg'' (Some ''shc:/2'')])
      = Inr (Some ([CHR ''['', CHR 0x22] @ ''shc:/1'' @ [CHR 0x22, CHR '','', CHR 0x22]
                     @ ''shc:/2'' @ [CHR 0x22, CHR '']'']))
   \<and> list_all (decodes ex_image_env) [ex_file ''a.png'' ''png'' (Some ''shc:/1'')]
   \<and> json_plain (decoded_text ex_image_env (ex_file ''a.png'' ''png'' (Some ''shc:/1'')))
   \<and> outcome_value (image_validate ex_image_env [ex_file ''a.png'' ''png'' (Some ''shc:/1'')])
      = Inr (Some ([CHR ''['', CHR 0x22] @ ''shc:/1'' @ [CHR 0x22, CHR '']'']))
   \<and> list_all (decodes ex_image_env)
        [ex_file ''c.png'' ''png'' (Some [CHR ''a'', CHR 0x22, CHR 0x5C, CHR 0x0A])]
   \<and> outcome_value (image_validate ex_image_env
        [ex_file ''c.png'' ''png'' (Some [CHR ''a'', CHR 0x22, CHR 0x5C, CHR 0x0A])])
      = Inr (Some [CHR ''['', CHR 0x22, CHR ''a'', CHR 0x5C, CHR 0x22, CHR 0x5C, CHR 0x5C,
                   CHR 0x5C, CHR ''n'', CHR 0x22, CHR '']''])"
proof -
  let ?a = "ex_file ''a.png'' ''png'' (Some ''shc:/1'')"
  let ?b = "ex_file ''b.svg'' ''svg'' (Some ''shc:/2'')"
  let ?c = "ex_file ''c.png'' ''png'' (Some [CHR ''a'', CHR 0x22, CHR 0x5C, CHR 0x0A])"
  have d2: "list_all (decodes ex_image_env) [?a, ?b]" by code_simp
  have d1: "list_all (decodes ex_image_env) [?a]" by code_simp
  have d3: "list_all (decodes ex_image_env) [?c]" by code_simp
  have t: "decoded_text ex_image_env ?a = ''shc:/1''" "decoded_text ex_image_env ?b = ''shc:/2''"
    "decoded_text ex_image_env ?c = [CHR ''a'', CHR 0x22, CHR 0x5C, CHR 0x0A]"
    by code_simp+
  have pl: "json_plain (decoded_text ex_image_env ?a)" by code_simp
  from batch_result_is_json_array [OF d2] t
  have 2: "outcome_value (image_validate ex_image_env [?a, ?b])
      = Inr (Some ([CHR ''['', CHR 0x22] @ ''shc:/1'' @ [CHR 0x22, CHR '','', CHR 0x22]
                     @ ''shc:/2'' @ [CHR 0x22, CHR '']'']))"
    by (simp add: json_stringify_two)
  from batch_result_is_json_array [OF d1, THEN conjunct2, THEN conjunct2] pl t
  have 1: "outcome_value (image_validate ex_image_env [?a])
      = Inr (Some ([CHR ''['', CHR 0x22] @ ''shc:/1'' @ [CHR 0x22, CHR '']'']))"
    by simp
  from batch_result_is_json_array [OF d3] t
  have 3: "outcome_value (image_validate ex_image_env [?c])
      = Inr (Some [CHR ''['', CHR 0x22, CHR ''a'', CHR 0x5C, CHR 0x22, CHR 0x5C, CHR 0x5C,
                   CHR 0x5C, CHR ''n'', CHR 0x22, CHR '']''])"
    by (simp add: json_stringify_escapes)
  from d2 2 d1 pl 1 d3 3 show ?thesis by blast
qed

lemma decode_loop_no_result:
  assumes "\<And>L s L'. decode env bad L \<noteq> Returned (Some s) L'"
  shows "decode_loop env (pre @ bad # post) acc L \<noteq> Returned (Some r) L'"
proof (induction pre arbitrary: acc L)
  case Nil
  show ?case
    using assms [of L]
    by (cases "decode env bad L") (auto split: option.splits)
next
  case (Cons img pre)
  show ?case
  proof (cases "decode env img L")
    case (Returned v L1)
    then show ?thesis using Cons.IH by (cases v) auto
  next
    case (Threw e L1)
    then show ?thesis by simp
  qed
qed

lemma image_validate_no_result:
  assumes "\<And>L s L'. decode env bad L \<noteq> Returned (Some s) L'"
  shows "\<forall>r. outcome_value (image_validate env (pre @ bad # post)) \<noteq> Inr (Some r)"
proof
  fix r
  let ?d = "decode_loop env (pre @ bad # post) []
              (new_Log (batch_title (length (pre @ bad # post))))"
  show "outcome_value (image_validate env (pre @ bad # post)) \<noteq> Inr (Some r)"
  proof (cases ?d)
    case (Returned v L1)
    with decode_loop_no_result [OF assms, of pre post "[]"] have "v = None"
      by (cases v) auto
    with Returned show ?thesis by (simp add: image_validate_def Let_def)
  next
    case (Threw e L1)
    then show ?thesis by (simp add: image_validate_def Let_def)
  qed
qed

lemma svg_conversion_rejects_batch:
  assumes "fileType bad = ''svg''"
    and "svg2img env (buffer_string env (buffer bad)) = Inl err"
  shows "(\<forall>r. outcome_value (image_validate env (pre @ bad # post)) \<noteq> Inr (Some r))
         \<and> (list_all (decodes env) pre \<longrightarrow>
              image_validate env (pre @ bad # post) =
                Threw Rejected
                  (Log (batch_title (length (pre @ bad # post)))
                     (concat (map (image_log_entries env) pre) @ [conversion_fatal err]) None)
              \<and> delivered (image_validate env (pre @ bad # post)) = Inl Rejected)
         \<and> logLevel (conversion_fatal err) = FATAL
         \<and> message (conversion_fatal err) = ''Could not convert SVG to image. Error: '' @ err"
proof -
  have "decode env bad L \<noteq> Returned (Some s) L'" for L s L'
    by (simp add: decode_rejected [OF assms])
  then have 1: "\<forall>r. outcome_value (image_validate env (pre @ bad # post)) \<noteq> Inr (Some r)"
    by (rule image_validate_no_result)
  have 2: "image_validate env (pre @ bad # post) =
                Threw Rejected
                  (Log (batch_title (length (pre @ bad # post)))
                     (concat (map (image_log_entries env) pre) @ [conversion_fatal err]) None)
              \<and> delivered (image_validate env (pre @ bad # post)) = Inl Rejected"
    if pre: "list_all (decodes env) pre"
  proof -
    have "decode_loop env (pre @ bad # post) []
            (new_Log (batch_title (length (pre @ bad # post)))) =
        Threw Rejected
          (log_append [conversion_fatal err]
            (log_append (concat (map (image_log_entries env) pre))
               (new_Log (batch_title (length (pre @ bad # post))))))"
      by (simp add: decode_loop_prefix [OF pre] decode_rejected [OF assms])
    then show ?thesis
      by (simp add: image_validate_def Let_def log_append_def new_Log_def)
  qed
  from 1 2 show ?thesis by (simp add: conversion_fatal_def)
qed

text \<open>
  C9. A batch of one SVG image whose conversion fails: \<open>svgToImageBuffer\<close> appends the
  fatal entry to the log of \<open>validate\<close> and rejects with \<open>undefined\<close>; \<open>decode\<close>
  and \<open>validate\<close> have no handler, so \<open>validate\<close> rejects and its caller receives
  neither a result nor the log that holds the entry. The sibling exit for an image in
  which no code is found returns the undefined result together with the log.
\<close>

theorem svg_conversion_failure_rejects:
  "fileType (ex_file ''b.svg'' ''svg'' (Some ''bad'')) = ''svg''
   \<and> svg2img ex_image_env
        (buffer_string ex_image_env (buffer (ex_file ''b.svg'' ''svg'' (Some ''bad''))))
      = Inl ''unexpected end of input''
   \<and> delivered (image_validate ex_image_env [ex_file ''b.svg'' ''svg'' (Some ''bad'')])
      = Inl Rejected
   \<and> delivered (image_validate ex_image_env [ex_file ''b.png'' ''png'' (Some [])])
      = Inr (None,
             Log ''QR image''
               [\<lparr>message = ''Could not decode QR image from : b.png'',
                 code = Some QR_DECODE_ERROR, logLevel = FATAL\<rparr>] None)"
  by code_simp

text \<open>
  C6, amended. A batch that holds an image for which \<open>decode\<close> yields no text never
  yields a defined result. When every image before that image decodes, \<open>validate\<close>
  returns an undefined result for the whole batch, with no child log, and the last entry
  of its log is fatal. That entry carries the QR-decode-error
  code exactly when the image had pixels in which \<open>jsQR\<close> found no code; an unknown file
  type is logged with the unknown-file-data code, and missing pixel data with no code.
\<close>

theorem undecodable_image_fails_batch:
  assumes "decode_value env bad = Inr None"
  shows "(\<forall>r. outcome_value (image_validate env (pre @ bad # post)) \<noteq> Inr (Some r))
         \<and> (list_all (decodes env) pre \<longrightarrow>
              (\<exists>e. image_validate env (pre @ bad # post) =
                 Returned None
                   (Log (batch_title (length (pre @ bad # post)))
                      (concat (map (image_log_entries env) pre) @ [e]) None)
               \<and> logLevel e = FATAL
               \<and> (code e = Some QR_DECODE_ERROR \<longleftrightarrow> qr_not_found env bad)))"
proof -
  have "decode env bad L \<noteq> Returned (Some s) L'" for L s L'
    using decode_none [OF assms, of L] by auto
  then have 1: "\<forall>r. outcome_value (image_validate env (pre @ bad # post)) \<noteq> Inr (Some r)"
    by (rule image_validate_no_result)
  have 2: "\<exists>e. image_validate env (pre @ bad # post) =
                 Returned None
                   (Log (batch_title (length (pre @ bad # post)))
                      (concat (map (image_log_entries env) pre) @ [e]) None)
               \<and> logLevel e = FATAL
               \<and> (code e = Some QR_DECODE_ERROR \<longleftrightarrow> qr_not_found env bad)"
    if pre: "list_all (decodes env) pre"
  proof -
    define T where "T = batch_title (length (pre @ bad # post))"
    let ?L = "log_append (concat (map (image_log_entries env) pre)) (new_Log T)"
    from decode_none [OF assms, of ?L] obtain e
      where e: "decode env bad ?L = Returned None (log_append [e] ?L)" "logLevel e = FATAL"
        "code e = Some QR_DECODE_ERROR \<longleftrightarrow> qr_not_found env bad" by blast
    have "decode_loop env (pre @ bad # post) [] (new_Log T) = Returned None (log_append [e] ?L)"
      by (simp add: decode_loop_prefix [OF pre] e(1))
    then have "image_validate env (pre @ bad # post) =
             Returned None (Log T (concat (map (image_log_entries env) pre) @ [e]) None)"
      unfolding image_validate_def T_def [symmetric]
      by (simp add: Let_def log_append_def new_Log_def)
    with e(2,3) show ?thesis unfolding T_def by blast
  qed
  from 1 2 show ?thesis by blast
qed

theorem undecodable_image_fails_batch_witness:
  "list_all (decodes ex_image_env) [ex_file ''a.png'' ''png'' (Some ''shc:/1'')]
   \<and> decode_value ex_image_env (ex_file ''b.png'' ''png'' (Some [])) = Inr None
   \<and> qr_not_found ex_image_env (ex_file ''b.png'' ''png'' (Some []))
   \<and> (\<exists>e. image_validate ex_image_env
              ([ex_file ''a.png'' ''png'' (Some ''shc:/1'')]
                @ ex_file ''b.png'' ''png'' (Some []) # []) =
           Returned None
             (Log (batch_title (length ([ex_file ''a.png'' ''png'' (Some ''shc:/1'')]
                @ ex_file ''b.png'' ''png'' (Some []) # [])))
                (concat (map (image_log_entries ex_image_env)
                   [ex_file ''a.png'' ''png'' (Some ''shc:/1'')]) @ [e]) None)
         \<and> logLevel e = FATAL \<and> code e = Some QR_DECODE_ERROR)"
proof -
  let ?a = "ex_file ''a.png'' ''png'' (Some ''shc:/1'')"
  let ?b = "ex_file ''b.png'' ''png'' (Some [])"
  have 1: "list_all (decodes ex_image_env) [?a]" by code_simp
  have 2: "decode_value ex_image_env ?b = Inr None" by code_simp
  have 3: "qr_not_found ex_image_env ?b" by code_simp
  from undecodable_image_fails_batch [OF 2, of "[?a]" "[]"] 1 2 3 show ?thesis by blast
qed

theorem undecodable_image_counterexample:
  "decode_value ex_image_env (ex_file ''b.png'' ''png'' (Some [])) = Inr None
   \<and> jsQR ex_image_env [] = None
   \<and> image_validate ex_image_env
        [ex_file ''a.gif'' ''gif'' None, ex_file ''b.png'' ''png'' (Some [])] =
       Returned None
         (Log ''QR images (2)''
            [\<lparr>message = ''Unknown data in file'', code = Some UNKNOWN_FILE_DATA,
              logLevel = FATAL\<rparr>] None)
   \<and> image_validate ex_image_env [ex_file ''c.png'' ''png'' None] =
       Returned None
         (Log ''QR image''
            [\<lparr>message = ''Could not read image data from : c.png'', code = None,
              logLevel = FATAL\<rparr>] None)"
  by code_simp

section \<open>Properties of the Trusted Issuer Directory\<close>

lemma checkTrustedIssuerDirectory_unset:
  "issuers dir = None \<Longrightarrow>
   checkTrustedIssuerDirectory dir iss_url L =
     log_add ERROR ''Error validating against the trusted issuers directory: directory not set''
       None L"
  by (simp add: checkTrustedIssuerDirectory_def)

lemma checkTrustedIssuerDirectory_set:
  assumes "issuers dir = Some trusted"
  shows "checkTrustedIssuerDirectory dir iss_url L =
     (case find (\<lambda>issuer. issuer_iss issuer = iss_url) (participating_issuers trusted) of
        Some issuer \<Rightarrow>
          if issuer_name issuer \<noteq> []
          then log_add DEBUG
                 (''Issuer found in TrustedIssuerDirectory directory; name: '' @ issuer_name issuer)
                 None L
          else log_add ERROR
                 (''Issuer not part of the '' @ template_string (directoryName dir) @ '' directory'')
                 (Some ISSUER_NOT_TRUSTED) L
      | None \<Rightarrow>
          log_add ERROR
            (''Issuer not part of the '' @ template_string (directoryName dir) @ '' directory'')
            (Some ISSUER_NOT_TRUSTED) L)"
proof -
  have eq: "(case map issuer_name (filter (\<lambda>issuer. issuer_iss issuer = iss_url) xs) of
           [] \<Rightarrow> None | n # _ \<Rightarrow> Some n)
        = map_option issuer_name (find (\<lambda>issuer. issuer_iss issuer = iss_url) xs)" for xs
    by (induction xs) auto
  show ?thesis
    using assms by (simp add: checkTrustedIssuerDirectory_def Let_def eq split: option.splits)
qed

text \<open>
  C8. A directory is configured and one of its participants has exactly the issuer URL
  asked for, with an empty friendly name: \<open>checkTrustedIssuerDirectory\<close> logs the
  issuer-not-trusted error, not the debug entry, because \<open>if (issName)\<close> at line 141
  takes the empty name for no match.
\<close>

theorem empty_name_not_trusted:
  "issuers ex_directory = Some ex_issuers
   \<and> map issuer_iss (participating_issuers ex_issuers) = [''https://a.example'']
   \<and> checkTrustedIssuerDirectory ex_directory ''https://a.example'' (new_Log ''JWS-compact'') =
       Log ''JWS-compact''
         [\<lparr>message = ''Issuer not part of the test directory'',
           code = Some ISSUER_NOT_TRUSTED, logLevel = ERROR\<rparr>] None"
  by code_simp

end
